theory Spec2Isabelle
  imports Complex_Main
begin

section \<open>Data model of \<open>gen_pattern.py\<close>\<close>

text \<open>
  The class \<open>PatternMaker\<close> of \<open>src/gen_pattern.py\<close> computes the placement of every
  primitive of a calibration pattern and adds it to the group \<open>self.g\<close> of an
  \<open>svgwrite\<close> drawing.  Python floats are modelled as exact reals, Python ints as
  \<open>int\<close>; an exception is a value \<open>Inl e\<close> of the result type \<open>error + 'a\<close>, and
  the object as it is left by a call that raises is not modelled.  The methods keep
  their names, without the leading underscores; \<open>init\<close> is \<open>__init__\<close>.
\<close>

datatype error = ZeroDivisionError | TypeError | IndexError | KeyError | ValueError | OSError

text \<open>
  The primitives handed to \<open>svgwrite\<close>, with the keyword arguments of the calls
  \<open>dwg.circle(center, r, fill, stroke)\<close>,
  \<open>dwg.rect(insert, size, fill, stroke[, stroke_width])\<close> and
  \<open>dwg.path(d, fill, stroke)\<close>, in this order.
\<close>

datatype primitive =
    Circle "real \<times> real" real string string
  | Rect "real \<times> real" "real \<times> real" string string "real option"
  | Path string string string

text \<open>
  The children of the drawing \<open>self.dwg\<close>: the \<open>defs\<close> element every
  \<open>svgwrite.Drawing\<close> starts with, and references to the one group object \<open>self.g\<close>
  (\<open>dwg.add(self.g)\<close> appends the object itself, not a copy).
\<close>

datatype svg_child = Defs | GroupRef

text \<open>
  The lines \<open>make_charuco_board\<close> prints: the two errors, and the warning with the
  border and \<open>int(side)\<close> it shows.  The field \<open>stdout\<close> of the record below collects
  them.
\<close>

datatype message =
    MarkerTooLarge
  | InsufficientMarkers
  | NarrowBorder real int

record PatternMaker =
  cols :: int
  rows :: int
  output_file :: string
  units :: string
  square_size :: real
  radius_rate :: real
  width :: real
  height :: real
  markers :: "(int \<times> int) list option"
  aruco_marker_size :: real
  dict_file :: string
  dwg :: "svg_child list"
  g :: "primitive list"
  stdout :: "message list"

definition init :: "int \<Rightarrow> int \<Rightarrow> string \<Rightarrow> string \<Rightarrow> real \<Rightarrow> real \<Rightarrow> real \<Rightarrow> real
    \<Rightarrow> (int \<times> int) list option \<Rightarrow> real \<Rightarrow> string \<Rightarrow> PatternMaker" where
  "init cols' rows' output' units' square_size' radius_rate' page_width page_height
        markers' aruco_marker_size' dict_file' =
     \<lparr> cols = cols', rows = rows', output_file = output',
       units = (if units' = ''inches'' then ''in'' else units'),
       square_size = square_size', radius_rate = radius_rate',
       width = page_width, height = page_height,
       markers = markers', aruco_marker_size = aruco_marker_size',
       dict_file = dict_file',
       dwg = [Defs], g = [], stdout = [] \<rparr>"

section \<open>Loops\<close>

text \<open>\<open>range(0, n)\<close> of Python: empty when \<open>n \<le> 0\<close>.\<close>

definition range0 :: "int \<Rightarrow> int list" where
  "range0 n = map int [0..<nat n]"

text \<open>A \<open>for\<close> loop whose body may raise: the first exception ends the loop.\<close>

fun for_loop :: "'a list \<Rightarrow> ('a \<Rightarrow> 's \<Rightarrow> error + 's) \<Rightarrow> 's \<Rightarrow> error + 's" where
  "for_loop [] body s = Inr s"
| "for_loop (x # xs) body s =
     (case body x s of Inl e \<Rightarrow> Inl e | Inr s' \<Rightarrow> for_loop xs body s')"

section \<open>Circle grids\<close>

text \<open>
  Lines 41--46 of \<open>make_circles_pattern\<close>: the radius, the footprint and the centering
  offsets \<open>(r, pattern_width, pattern_height, x_spacing, y_spacing)\<close>.  The division
  \<open>spacing / self.radius_rate\<close> raises when the rate is zero.
\<close>

definition circles_layout :: "PatternMaker \<Rightarrow> error + (real \<times> real \<times> real \<times> real \<times> real)" where
  "circles_layout self =
     (let spacing = square_size self in
      if radius_rate self = 0 then Inl ZeroDivisionError
      else
        let r = spacing / radius_rate self;
            pattern_width = ((real_of_int (cols self) - 1) * spacing) + (2 * r);
            pattern_height = ((real_of_int (rows self) - 1) * spacing) + (2 * r);
            x_spacing = (width self - pattern_width) / 2;
            y_spacing = (height self - pattern_height) / 2
        in Inr (r, pattern_width, pattern_height, x_spacing, y_spacing))"

definition make_circles_pattern :: "PatternMaker \<Rightarrow> error + PatternMaker" where
  "make_circles_pattern self =
     (case circles_layout self of
        Inl e \<Rightarrow> Inl e
      | Inr (r, pattern_width, pattern_height, x_spacing, y_spacing) \<Rightarrow>
          let spacing = square_size self in
          Inr (self\<lparr> g :=
            fold (\<lambda>x. fold (\<lambda>y grp. grp @
                [Circle ((real_of_int x * spacing) + x_spacing + r,
                         (real_of_int y * spacing) + y_spacing + r)
                        r ''black'' ''none''])
                (range0 (rows self)))
              (range0 (cols self)) (g self) \<rparr>))"

section \<open>Double arithmetic\<close>

text \<open>
  Where a statement compares the results of different float computations, the floats are
  doubles: reals with a significand of 53 bits, and every operation returns the double
  nearest to the exact result, the one with the even significand when two are equally
  near.  The exponent is not bounded in this model: a result of \<open>2 ^ 1024\<close> or more,
  where Python gives \<open>inf\<close> or raises \<open>OverflowError\<close>, and the subnormal numbers
  below \<open>2 ^ - 1022\<close> are outside it.  The asymmetric circle grid and the quotient of
  line 191 (\<open>markers_needed\<close>) are in doubles; the other sections keep exact reals.
\<close>

text \<open>The number of binary digits of \<open>n\<close>.\<close>

fun bit_length :: "nat \<Rightarrow> nat" where
  "bit_length n = (if n = 0 then 0 else Suc (bit_length (n div 2)))"

declare bit_length.simps [simp del]

text \<open>The integer nearest to \<open>v\<close>, the even one of two equally near.\<close>

definition round_half_even :: "real \<Rightarrow> int" where
  "round_half_even v =
     (let f = \<lfloor>v\<rfloor>; d = v - real_of_int f
      in if d < 1 / 2 then f else if 1 / 2 < d then f + 1 else if even f then f else f + 1)"

text \<open>\<open>2\<close> to the power \<open>j\<close>, for an integer \<open>j\<close>.\<close>

definition pow2 :: "int \<Rightarrow> real" where
  "pow2 j = (if 0 \<le> j then 2 ^ nat j else 1 / 2 ^ nat (- j))"

text \<open>
  The exponent \<open>j\<close> that brings a positive \<open>v\<close> to 53 binary digits before the
  point: \<open>v * 2 ^ j\<close> lies between \<open>2 ^ 52\<close> and \<open>2 ^ 53\<close>.
\<close>

definition ulp_scale :: "real \<Rightarrow> int" where
  "ulp_scale v =
     (if 2 ^ 52 \<le> v then 53 - int (bit_length (nat \<lfloor>v\<rfloor>))
      else int (bit_length (nat \<lfloor>2 ^ 52 / v\<rfloor>)))"

text \<open>The double nearest to \<open>v\<close>.\<close>

definition rd :: "real \<Rightarrow> real" where
  "rd v =
     (if v = 0 then 0
      else sgn v * real_of_int (round_half_even (\<bar>v\<bar> * pow2 (ulp_scale \<bar>v\<bar>))) / pow2 (ulp_scale \<bar>v\<bar>))"

text \<open>
  The operations on floats, and the conversion of an int that Python applies when an
  int meets a float.
\<close>

definition fadd :: "real \<Rightarrow> real \<Rightarrow> real" where
  "fadd a b = rd (a + b)"

definition fsub :: "real \<Rightarrow> real \<Rightarrow> real" where
  "fsub a b = rd (a - b)"

definition fmul :: "real \<Rightarrow> real \<Rightarrow> real" where
  "fmul a b = rd (a * b)"

definition fdiv :: "real \<Rightarrow> real \<Rightarrow> real" where
  "fdiv a b = rd (a / b)"

definition float_of_int :: "int \<Rightarrow> real" where
  "float_of_int n = rd (real_of_int n)"

section \<open>The asymmetric circle grid, in doubles\<close>

text \<open>
  \<open>make_acircles_pattern\<close>, lines 58--72, with every operation as Python evaluates it:
  left to right, an int converted where it meets a float.  The footprint counts the
  columns at double spacing, and odd rows are shifted by one spacing.
\<close>

definition acircles_layout :: "PatternMaker \<Rightarrow> error + (real \<times> real \<times> real \<times> real \<times> real)" where
  "acircles_layout self =
     (let spacing = square_size self in
      if radius_rate self = 0 then Inl ZeroDivisionError
      else
        let r = fdiv spacing (radius_rate self);
            pattern_width =
              fadd (fadd (fmul (fmul (fsub (float_of_int (cols self)) 1) 2) spacing) spacing)
                   (fmul 2 r);
            pattern_height =
              fadd (fmul (fsub (float_of_int (rows self)) 1) spacing) (fmul 2 r);
            x_spacing = fdiv (fsub (width self) pattern_width) 2;
            y_spacing = fdiv (fsub (height self) pattern_height) 2
        in Inr (r, pattern_width, pattern_height, x_spacing, y_spacing))"

text \<open>
  The argument \<open>center\<close> of the circle of cell \<open>(x, y)\<close>, line 67:
  \<open>((2 * x * spacing) + (y % 2)*spacing + x_spacing + r, (y * spacing) + y_spacing + r)\<close>.
\<close>

definition acircles_center :: "real \<Rightarrow> real \<Rightarrow> real \<Rightarrow> real \<Rightarrow> int \<Rightarrow> int \<Rightarrow> real \<times> real" where
  "acircles_center spacing x_spacing y_spacing r x y =
     (fadd (fadd (fadd (fmul (float_of_int (2 * x)) spacing)
                       (fmul (float_of_int (y mod 2)) spacing))
                 x_spacing) r,
      fadd (fadd (fmul (float_of_int y) spacing) y_spacing) r)"

definition make_acircles_pattern :: "PatternMaker \<Rightarrow> error + PatternMaker" where
  "make_acircles_pattern self =
     (case acircles_layout self of
        Inl e \<Rightarrow> Inl e
      | Inr (r, pattern_width, pattern_height, x_spacing, y_spacing) \<Rightarrow>
          let spacing = square_size self in
          Inr (self\<lparr> g :=
            fold (\<lambda>x. fold (\<lambda>y grp. grp @
                [Circle (acircles_center spacing x_spacing y_spacing r x y)
                        r ''black'' ''none''])
                (range0 (rows self)))
              (range0 (cols self)) (g self) \<rparr>))"

section \<open>Rounded rectangles\<close>

text \<open>\<open>" ".join(path)\<close>.\<close>

fun join :: "string \<Rightarrow> string list \<Rightarrow> string" where
  "join sep [] = []"
| "join sep [p] = p"
| "join sep (p # q # ps) = p @ sep @ join sep (q # ps)"

text \<open>
  \<open>_make_round_rect\<close>.  The text \<open>"{}".format(v)\<close> of a float is Python's own; it is
  the parameter \<open>fmt\<close>.  \<open>corners\<close> is the sequence of corner types, read at the
  indices 0 to 3.  \<open>round_rect_corner\<close> is the body of the loop over the corners, lines
  97--103, on the list \<open>path\<close>.
\<close>

definition round_rect_corner ::
    "(real \<Rightarrow> string) \<Rightarrow> real \<Rightarrow> real \<Rightarrow> real \<Rightarrow> string list \<Rightarrow> nat \<Rightarrow> string list
       \<Rightarrow> error + string list" where
  "round_rect_corner fmt x y diam corners i path =
     (let rad = diam / 2;
          cw_point = [(0, 0), (diam, 0), (diam, diam), (0, diam)];
          mid_cw_point = [(0, rad), (rad, 0), (diam, rad), (rad, diam)];
          n = length cw_point
      in if \<not> i < length corners then Inl IndexError
         else if corners ! i = ''right'' then
           Inr (path @
             [''L'' @ fmt (x + fst (cw_point ! i)) @ '','' @ fmt (y + snd (cw_point ! i)),
              ''L'' @ fmt (x + fst (mid_cw_point ! ((i + 1) mod n))) @ '','' @
                      fmt (y + snd (mid_cw_point ! ((i + 1) mod n)))])
         else if corners ! i = ''round'' then
           Inr (path @
             [''A'' @ fmt rad @ '','' @ fmt rad @ '' 0 0 1 '' @
                fmt (x + fst (mid_cw_point ! ((i + 1) mod n))) @ '','' @
                fmt (y + snd (mid_cw_point ! ((i + 1) mod n)))])
         else Inl TypeError)"

definition make_round_rect ::
    "(real \<Rightarrow> string) \<Rightarrow> real \<Rightarrow> real \<Rightarrow> real \<Rightarrow> string list \<Rightarrow> error + string" where
  "make_round_rect fmt x y diam corners =
     (let rad = diam / 2;
          path = [''M'' @ fmt (x + rad) @ '','' @ fmt y];
          cw_point = [(0 :: real, 0 :: real), (diam, 0), (diam, diam), (0, diam)];
          n = length cw_point
      in case for_loop [0..<n] (round_rect_corner fmt x y diam corners) path of
           Inl e \<Rightarrow> Inl e
         | Inr path' \<Rightarrow> Inr (join '' '' (path' @ [''Z''])))"

section \<open>Radon checkerboard\<close>

text \<open>\<open>_get_type\<close>: one \<open>if\<close> per board edge, each rounding the two corners on it.\<close>

definition get_type :: "PatternMaker \<Rightarrow> int \<Rightarrow> int \<Rightarrow> string list \<times> bool" where
  "get_type self x y =
     (let corners = [''right'', ''right'', ''right'', ''right''];
          is_inside = True;
          (corners, is_inside) =
            (if x = 0 then (corners[0 := ''round'', 3 := ''round''], False)
             else (corners, is_inside));
          (corners, is_inside) =
            (if y = 0 then (corners[0 := ''round'', 1 := ''round''], False)
             else (corners, is_inside));
          (corners, is_inside) =
            (if x = cols self - 1 then (corners[1 := ''round'', 2 := ''round''], False)
             else (corners, is_inside));
          (corners, is_inside) =
            (if y = rows self - 1 then (corners[2 := ''round'', 3 := ''round''], False)
             else (corners, is_inside))
      in (corners, is_inside))"

text \<open>The body of the grid loop of \<open>make_radon_checkerboard_pattern\<close>, lines 134--149.\<close>

definition radon_cell ::
    "(real \<Rightarrow> string) \<Rightarrow> PatternMaker \<Rightarrow> int \<Rightarrow> int \<Rightarrow> primitive list \<Rightarrow> error + primitive list" where
  "radon_cell fmt self x y grp =
     (let spacing = square_size self;
          xspacing = (width self - real_of_int (cols self) * square_size self) / 2;
          yspacing = (height self - real_of_int (rows self) * square_size self) / 2
      in if x mod 2 = y mod 2 then
           (case get_type self x y of (corner_types, is_inside) \<Rightarrow>
              if is_inside then
                Inr (grp @ [Rect (real_of_int x * spacing + xspacing, real_of_int y * spacing + yspacing)
                                 (spacing, spacing) ''black'' ''none'' None])
              else
                (case make_round_rect fmt (real_of_int x * spacing + xspacing)
                        (real_of_int y * spacing + yspacing) spacing corner_types of
                   Inl e \<Rightarrow> Inl e
                 | Inr d \<Rightarrow> Inr (grp @ [Path d ''black'' ''none''])))
         else Inr grp)"

text \<open>The overlay dot of one pair of \<open>self.markers\<close>, lines 151--165.\<close>

definition radon_dot :: "PatternMaker \<Rightarrow> int \<times> int \<Rightarrow> primitive" where
  "radon_dot self m =
     (case m of (x, y) \<Rightarrow>
        let spacing = square_size self;
            r = square_size self * 0.17;
            pattern_width = ((real_of_int (cols self) - 1) * spacing) + (2 * r);
            pattern_height = ((real_of_int (rows self) - 1) * spacing) + (2 * r);
            x_spacing = (width self - pattern_width) / 2;
            y_spacing = (height self - pattern_height) / 2;
            color = (if x mod 2 = y mod 2 then ''white'' else ''black'')
        in Circle ((real_of_int x * spacing) + x_spacing + r,
                   (real_of_int y * spacing) + y_spacing + r) r color ''none'')"

definition make_radon_checkerboard_pattern ::
    "(real \<Rightarrow> string) \<Rightarrow> PatternMaker \<Rightarrow> error + PatternMaker" where
  "make_radon_checkerboard_pattern fmt self =
     (case for_loop (range0 (cols self))
             (\<lambda>x. for_loop (range0 (rows self)) (\<lambda>y. radon_cell fmt self x y)) (g self) of
        Inl e \<Rightarrow> Inl e
      | Inr grp \<Rightarrow>
          (case markers self of
             None \<Rightarrow> Inr (self\<lparr> g := grp \<rparr>)
           | Some ms \<Rightarrow> Inr (self\<lparr> g := fold (\<lambda>m grp. grp @ [radon_dot self m]) ms grp \<rparr>)))"

section \<open>Marker board\<close>

text \<open>
  \<open>int(c)\<close> of one character of a bit string: the decimal digits (character codes
  48 to 57) have a value, any other character raises \<open>ValueError\<close>.
\<close>

definition int_of_char :: "char \<Rightarrow> int option" where
  "int_of_char c =
     (let code = (of_char c :: int)
      in if 48 \<le> code \<and> code \<le> 57 then Some (code - 48) else None)"

text \<open>
  \<open>_create_marker_bits\<close>.  \<open>np.zeros\<close> is a list of rows; \<open>bits\<close> is a view of
  \<open>marker[1:n+1, 1:n+1]\<close>, so the assignment \<open>bits[i][j] = v\<close> writes
  \<open>marker[1+i][1+j]\<close>.  \<open>byteList\<close> is the string of the dictionary entry.
\<close>

definition create_marker_bits :: "int \<Rightarrow> string \<Rightarrow> error + int list list" where
  "create_marker_bits markerSize_bits byteList =
     (if markerSize_bits + 2 < 0 then Inl ValueError
      else
        let marker = replicate (nat (markerSize_bits + 2)) (replicate (nat (markerSize_bits + 2)) 0)
        in for_loop (range0 markerSize_bits) (\<lambda>i.
             for_loop (range0 markerSize_bits) (\<lambda>j marker.
               let k = nat (i * markerSize_bits + j) in
               if \<not> k < length byteList then Inl IndexError
               else case int_of_char (byteList ! k) of
                      None \<Rightarrow> Inl ValueError
                    | Some v \<Rightarrow>
                        Inr (marker[nat (1 + i) := (marker ! nat (1 + i))[nat (1 + j) := v]])))
             marker)"

text \<open>The value \<open>int(byteList[k])\<close> of the \<open>k\<close>-th character, where it has one.\<close>

definition digit_at :: "string \<Rightarrow> nat \<Rightarrow> int" where
  "digit_at bl k = the (int_of_char (bl ! k))"

text \<open>
  The marker dictionary as \<open>json.load\<close> returns it: the entries \<open>"nmarkers"\<close> and
  \<open>"markersize"\<close>, and \<open>marker k\<close> for the entry \<open>"marker_" + str(k)\<close>.  A missing
  key raises \<open>KeyError\<close>.
\<close>

record mdict =
  nmarkers :: "int option"
  markersize :: "int option"
  marker :: "nat \<Rightarrow> string option"

text \<open>\<open>int(v)\<close> of a float: truncation towards zero.\<close>

definition int_trunc :: "real \<Rightarrow> int" where
  "int_trunc v = (if 0 \<le> v then \<lfloor>v\<rfloor> else \<lceil>v\<rceil>)"

text \<open>
  The number of markers \<open>make_charuco_board\<close> asks of the dictionary, line 191:
  \<open>int(self.cols * self.rows / 2)\<close>.  The product is an int, the quotient the double
  nearest to its half (see the section on double arithmetic).
\<close>

definition markers_needed :: "PatternMaker \<Rightarrow> int" where
  "markers_needed self = int_trunc (rd (real_of_int (cols self * rows self) / 2))"

text \<open>
  The number of marker cells before cell \<open>(x, y)\<close> of a board of \<open>c\<close> columns, in the
  order of the loops of \<open>make_charuco_board\<close> (rows outside, columns inside).
\<close>

definition marker_index :: "int \<Rightarrow> int \<Rightarrow> int \<Rightarrow> nat" where
  "marker_index c y x = nat ((c * y) div 2 + (x + y mod 2) div 2)"

text \<open>
  The body of the grid loop of \<open>make_charuco_board\<close>, lines 206--236, on the pair
  \<open>(marker_id, self.g)\<close>; \<open>x'\<close> and \<open>y'\<close> are the loop variables \<open>x_\<close> and
  \<open>y_\<close>.
\<close>

definition charuco_cell ::
    "PatternMaker \<Rightarrow> mdict \<Rightarrow> int \<Rightarrow> real \<Rightarrow> int \<Rightarrow> int \<Rightarrow> nat \<times> primitive list
       \<Rightarrow> error + nat \<times> primitive list" where
  "charuco_cell self dictionary markerSize_bits side y x st =
     (case st of (marker_id, grp) \<Rightarrow>
      let spacing = square_size self;
          xspacing = (width self - real_of_int (cols self) * square_size self) / 2;
          yspacing = (height self - real_of_int (rows self) * square_size self) / 2;
          ch_ar_border = (square_size self - aruco_marker_size self) / 2
      in if x mod 2 = y mod 2 then
           Inr (marker_id,
                grp @ [Rect (real_of_int x * spacing + xspacing, real_of_int y * spacing + yspacing)
                            (spacing, spacing) ''black'' ''none'' None])
         else
           (case marker dictionary marker_id of
              None \<Rightarrow> Inl KeyError
            | Some byteList \<Rightarrow>
               (case create_marker_bits markerSize_bits byteList of
                  Inl e \<Rightarrow> Inl e
                | Inr img_mark \<Rightarrow>
                    let x_pos = real_of_int x * spacing + xspacing;
                        y_pos = real_of_int y * spacing + yspacing;
                        grp = grp @ [Rect (x_pos + ch_ar_border, y_pos + ch_ar_border)
                                 (aruco_marker_size self, aruco_marker_size self)
                                 ''black'' ''none'' None]
                    in if img_mark = [] then Inl IndexError
                       else Inr (marker_id + 1,
                         fold (\<lambda>x'. fold (\<lambda>y' grp.
                             if img_mark ! y' ! x' \<noteq> 0 then
                               grp @ [Rect (x_pos + ch_ar_border + (real x' * side),
                                            y_pos + ch_ar_border + (real y' * side))
                                           (side, side) ''white'' ''white'' (Some (spacing * 0.01))]
                             else grp)
                           [0..<length img_mark])
                         [0..<length (img_mark ! 0)] grp))))"

text \<open>
  \<open>make_charuco_board\<close>.  \<open>load\<close> is the outcome of reading and parsing
  \<open>self.dict_file\<close> (lines 182--189), which happens after the marker-size check.  The
  two validation failures print a line and return.
\<close>

definition make_charuco_board :: "error + mdict \<Rightarrow> PatternMaker \<Rightarrow> error + PatternMaker" where
  "make_charuco_board load self =
     (if aruco_marker_size self > square_size self then
        Inr (self\<lparr> stdout := stdout self @ [MarkerTooLarge] \<rparr>)
      else case load of
        Inl e \<Rightarrow> Inl e
      | Inr dictionary \<Rightarrow>
         (case nmarkers dictionary of
            None \<Rightarrow> Inl KeyError
          | Some nm \<Rightarrow>
             if nm < markers_needed self then
               Inr (self\<lparr> stdout := stdout self @ [InsufficientMarkers] \<rparr>)
             else
              (case markersize dictionary of
                 None \<Rightarrow> Inl KeyError
               | Some markerSize_bits \<Rightarrow>
                  if markerSize_bits + 2 = 0 then Inl ZeroDivisionError
                  else
                    let side = aruco_marker_size self / real_of_int (markerSize_bits + 2);
                        ch_ar_border = (square_size self - aruco_marker_size self) / 2;
                        out = (if ch_ar_border < side * 0.7
                               then stdout self @ [NarrowBorder ch_ar_border (int_trunc side)]
                               else stdout self)
                    in case for_loop (range0 (rows self))
                              (\<lambda>y. for_loop (range0 (cols self))
                                 (charuco_cell self dictionary markerSize_bits side y))
                              (0, g self) of
                         Inl e \<Rightarrow> Inl e
                       | Inr (marker_id, grp) \<Rightarrow> Inr (self\<lparr> g := grp, stdout := out \<rparr>))))"

text \<open>The lines a call has printed: what \<open>stdout\<close> holds after it beyond what it held before.\<close>

definition printed :: "PatternMaker \<Rightarrow> PatternMaker \<Rightarrow> message list" where
  "printed self self' = drop (length (stdout self)) (stdout self')"

text \<open>
  The entry \<open>k\<close> of the dictionary is usable for markers of \<open>msb\<close> bits per side:
  it is there, it has at least \<open>msb * msb\<close> characters, and the first \<open>msb * msb\<close>
  are digits.
\<close>

definition wf_marker :: "mdict \<Rightarrow> int \<Rightarrow> nat \<Rightarrow> bool" where
  "wf_marker d msb k =
     (case marker d k of
        None \<Rightarrow> False
      | Some bl \<Rightarrow> nat (msb * msb) \<le> length bl \<and>
                   list_all (\<lambda>c. int_of_char c \<noteq> None) (take (nat (msb * msb)) bl))"

text \<open>
  What the body of the grid loop adds to the group for cell \<open>(x, y)\<close>: the group it
  leaves when it starts on an empty group with the marker index of the cell.
\<close>

definition board_cell ::
    "PatternMaker \<Rightarrow> mdict \<Rightarrow> int \<Rightarrow> real \<Rightarrow> int \<Rightarrow> int \<Rightarrow> primitive list" where
  "board_cell self d msb side y x =
     (case charuco_cell self d msb side y x (marker_index (cols self) y x, []) of
        Inl e \<Rightarrow> []
      | Inr (marker_id, grp) \<Rightarrow> grp)"

section \<open>Serialization\<close>

text \<open>
  The document \<open>self.dwg.tostring()\<close> describes: one element per child of the drawing,
  a reference to the group showing the primitives the group holds at that moment.
\<close>

datatype svg_element = DefsElement | GroupElement "primitive list"

definition tostring :: "PatternMaker \<Rightarrow> svg_element list" where
  "tostring self =
     map (\<lambda>c. case c of Defs \<Rightarrow> DefsElement | GroupRef \<Rightarrow> GroupElement (g self)) (dwg self)"

text \<open>\<open>get_svg_string\<close> returns the document, \<open>save\<close> writes the same document to the file.\<close>

definition get_svg_string :: "PatternMaker \<Rightarrow> svg_element list \<times> PatternMaker" where
  "get_svg_string self =
     (let self = self\<lparr> dwg := dwg self @ [GroupRef] \<rparr>
      in (tostring self, self))"

definition save :: "PatternMaker \<Rightarrow> svg_element list \<times> PatternMaker" where
  "save self =
     (let self = self\<lparr> dwg := dwg self @ [GroupRef] \<rparr>
      in (tostring self, self))"

text \<open>A sequence of serializations of one \<open>PatternMaker\<close>, each by either method.\<close>

datatype serialize_call = GetSvgString | Save

fun serialize :: "serialize_call \<Rightarrow> PatternMaker \<Rightarrow> svg_element list \<times> PatternMaker" where
  "serialize GetSvgString self = get_svg_string self"
| "serialize Save self = save self"

text \<open>The document of the last call (none before the first) and the object after all calls.\<close>

definition serialize_all ::
    "serialize_call list \<Rightarrow> PatternMaker \<Rightarrow> svg_element list option \<times> PatternMaker" where
  "serialize_all calls self =
     fold (\<lambda>c st. case serialize c (snd st) of (doc, self') \<Rightarrow> (Some doc, self')) calls (None, self)"

section \<open>Boards of the scenarios\<close>

text \<open>The default board: 8 columns, 11 rows, squares of 20, radius rate 5, on an A4 page.\<close>

definition default_board :: PatternMaker where
  "default_board = init 8 11 ''out.svg'' ''mm'' 20 5 210 297 None 10 ''DICT_ARUCO_ORIGINAL.json''"

text \<open>A board of 5 columns and 5 rows.\<close>

definition board_5x5 :: PatternMaker where
  "board_5x5 = init 5 5 ''out.svg'' ''mm'' 20 5 210 297 None 10 ''DICT_ARUCO_ORIGINAL.json''"

text \<open>A board of a single column.\<close>

definition board_1x5 :: PatternMaker where
  "board_1x5 = init 1 5 ''out.svg'' ''mm'' 20 5 210 297 None 10 ''DICT_ARUCO_ORIGINAL.json''"

text \<open>A Radon board of 4 by 3 cells with two overlay dots, the second outside the grid.\<close>

definition board_dots :: PatternMaker where
  "board_dots = init 4 3 ''out.svg'' ''mm'' 20 5 210 297 (Some [(2, 2), (7, -2)]) 10
     ''DICT_ARUCO_ORIGINAL.json''"

text \<open>A board of 2 by 2 cells whose markers are as large as its squares.\<close>

definition board_equal :: PatternMaker where
  "board_equal = init 2 2 ''out.svg'' ''mm'' 20 5 210 297 None 20 ''DICT_ARUCO_ORIGINAL.json''"

text \<open>A board of 2 by 2 cells whose markers are larger than its squares.\<close>

definition board_too_large :: PatternMaker where
  "board_too_large = init 2 2 ''out.svg'' ''mm'' 20 5 210 297 None 25 ''DICT_ARUCO_ORIGINAL.json''"

text \<open>A dictionary of \<open>n\<close> markers of one bit each, all set.\<close>

definition dict_ones :: "nat \<Rightarrow> mdict" where
  "dict_ones n =
     \<lparr> nmarkers = Some (int n), markersize = Some 1,
       marker = (\<lambda>k. if k < n then Some ''1'' else None) \<rparr>"

text \<open>
  The default board with squares of 25.4, the size as a double:
  \<open>3574732204225331 / 2 ^ 47\<close>.
\<close>

definition board_254 :: PatternMaker where
  "board_254 = init 8 11 ''out.svg'' ''mm'' (3574732204225331 / 140737488355328) 5 210 297 None 10
     ''DICT_ARUCO_ORIGINAL.json''"

text \<open>A board of one row whose number of cells is above \<open>2 ^ 53\<close>.\<close>

definition board_wide :: PatternMaker where
  "board_wide = init 18014398509481990 1 ''out.svg'' ''mm'' 20 5 210 297 None 10
     ''DICT_ARUCO_ORIGINAL.json''"

section \<open>Loops that only append\<close>

lemma fold_append_one: "fold (\<lambda>y grp. grp @ [f y]) ys grp = grp @ map f ys"
  by (induction ys arbitrary: grp) simp_all

lemma fold_fold_append:
  "fold (\<lambda>x. fold (\<lambda>y grp. grp @ [f x y]) ys) xs grp = grp @ concat (map (\<lambda>x. map (f x) ys) xs)"
  by (induction xs arbitrary: grp) (simp_all add: fold_append_one)

lemma range0_mem: "x \<in> set (range0 n) \<longleftrightarrow> 0 \<le> x \<and> x < n"
  apply (auto simp: range0_def)
  subgoal premises p
    using p by (intro image_eqI[where x="nat x"]) auto
  done


lemma grid_mem:
  "x \<in> set xs \<Longrightarrow> y \<in> set ys \<Longrightarrow> f x y \<in> set (concat (map (\<lambda>x. map (f x) ys) xs))"
  by auto

lemma circles_general:
  assumes "radius_rate self \<noteq> 0"
  shows "let spacing = square_size self;
          r = spacing / radius_rate self;
          x_offset = (width self - ((real_of_int (cols self) - 1) * spacing + 2 * r)) / 2;
          y_offset = (height self - ((real_of_int (rows self) - 1) * spacing + 2 * r)) / 2;
          cell = (\<lambda>x y. Circle (real_of_int x * spacing + x_offset + r,
                                  real_of_int y * spacing + y_offset + r) r ''black'' ''none'')
      in make_circles_pattern self =
           Inr (self\<lparr> g := g self @ concat (map (\<lambda>x. map (cell x) (range0 (rows self))) (range0 (cols self))) \<rparr>)"
  using assms
  by (simp add: make_circles_pattern_def circles_layout_def Let_def fold_fold_append)

section \<open>The circle grid\<close>

text \<open>
  C1 (amended).  For columns = 8, rows = 11, squareSize = 20, radiusRate = 5 on a
  210 x 297 page, \<open>make_circles_pattern\<close> computes the radius 4, the footprint
  (148, 208) and the centering offsets (31, 44.5), and the first circle it emits, the one
  of cell (0, 0), is centered at (35, 48.5).  In general, when radiusRate is not zero, the
  call returns and appends to the group, column by column, one black circle of radius
  r = squareSize / radiusRate per cell; every cell (x, y) with 0 \<le> x < columns and
  0 \<le> y < rows yields the circle centered at
  (x * squareSize + xOffset + r, y * squareSize + yOffset + r), where the offsets are
  (page - footprint) / 2 per axis.
\<close>

theorem make_circles_pattern_cells:
  "circles_layout default_board = Inr (4, 148, 208, 31, 44.5)
   \<and> (\<exists>self' ps. make_circles_pattern default_board = Inr self' \<and>
          g self' = Circle (35, 48.5) 4 ''black'' ''none'' # ps)
   \<and> (radius_rate self \<noteq> 0 \<longrightarrow>
        (let spacing = square_size self;
             r = spacing / radius_rate self;
             x_offset = (width self - ((real_of_int (cols self) - 1) * spacing + 2 * r)) / 2;
             y_offset = (height self - ((real_of_int (rows self) - 1) * spacing + 2 * r)) / 2;
             cell = (\<lambda>x y. Circle (real_of_int x * spacing + x_offset + r,
                                     real_of_int y * spacing + y_offset + r) r ''black'' ''none'')
         in \<exists>self'. make_circles_pattern self = Inr self' \<and>
              g self' = g self @ concat (map (\<lambda>x. map (cell x) (range0 (rows self))) (range0 (cols self))) \<and>
              (\<forall>x y. 0 \<le> x \<and> x < cols self \<and> 0 \<le> y \<and> y < rows self \<longrightarrow> cell x y \<in> set (g self'))))"
proof (intro conjI impI)
  show "circles_layout default_board = Inr (4, 148, 208, 31, 44.5)"
    by (simp add: circles_layout_def default_board_def init_def)
next
  show "\<exists>self' ps. make_circles_pattern default_board = Inr self' \<and>
          g self' = Circle (35, 48.5) 4 ''black'' ''none'' # ps"
    by (simp add: make_circles_pattern_def circles_layout_def fold_fold_append
          default_board_def init_def range0_def upt_conv_Cons)
next
  assume rr: "radius_rate self \<noteq> 0"
  define spacing where "spacing = square_size self"
  define r where "r = spacing / radius_rate self"
  define x_offset where
    "x_offset = (width self - ((real_of_int (cols self) - 1) * spacing + 2 * r)) / 2"
  define y_offset where
    "y_offset = (height self - ((real_of_int (rows self) - 1) * spacing + 2 * r)) / 2"
  define cell where
    "cell = (\<lambda>x y. Circle (real_of_int x * spacing + x_offset + r,
                            real_of_int y * spacing + y_offset + r) r ''black'' ''none'')"
  define self' where
    "self' = self\<lparr> g := g self @
       concat (map (\<lambda>x. map (cell x) (range0 (rows self))) (range0 (cols self))) \<rparr>"
  have run: "make_circles_pattern self = Inr self'"
    using circles_general[OF rr]
    by (simp add: Let_def self'_def cell_def y_offset_def x_offset_def r_def spacing_def)
  have grp: "g self' = g self @
       concat (map (\<lambda>x. map (cell x) (range0 (rows self))) (range0 (cols self)))"
    by (simp add: self'_def)
  have mem: "cell x y \<in> set (g self')"
    if "0 \<le> x \<and> x < cols self \<and> 0 \<le> y \<and> y < rows self" for x y
  proof -
    from that have "x \<in> set (range0 (cols self))" "y \<in> set (range0 (rows self))"
      by (simp_all add: range0_mem)
    then have "cell x y \<in> set (concat (map (\<lambda>x. map (cell x) (range0 (rows self))) (range0 (cols self))))"
      by (rule grid_mem)
    then show ?thesis by (simp add: grp)
  qed
  from run grp mem
  have "\<exists>self'. make_circles_pattern self = Inr self' \<and>
          g self' = g self @ concat (map (\<lambda>x. map (cell x) (range0 (rows self))) (range0 (cols self))) \<and>
          (\<forall>x y. 0 \<le> x \<and> x < cols self \<and> 0 \<le> y \<and> y < rows self \<longrightarrow> cell x y \<in> set (g self'))"
    by blast
  then show "let spacing = square_size self;
             r = spacing / radius_rate self;
             x_offset = (width self - ((real_of_int (cols self) - 1) * spacing + 2 * r)) / 2;
             y_offset = (height self - ((real_of_int (rows self) - 1) * spacing + 2 * r)) / 2;
             cell = (\<lambda>x y. Circle (real_of_int x * spacing + x_offset + r,
                                     real_of_int y * spacing + y_offset + r) r ''black'' ''none'')
         in \<exists>self'. make_circles_pattern self = Inr self' \<and>
              g self' = g self @ concat (map (\<lambda>x. map (cell x) (range0 (rows self))) (range0 (cols self))) \<and>
              (\<forall>x y. 0 \<le> x \<and> x < cols self \<and> 0 \<le> y \<and> y < rows self \<longrightarrow> cell x y \<in> set (g self'))"
    unfolding Let_def cell_def y_offset_def x_offset_def r_def spacing_def .
qed

theorem make_circles_pattern_cells_witness:
  "radius_rate default_board \<noteq> 0 \<and>
   (\<exists>self'. make_circles_pattern default_board = Inr self' \<and>
      Circle (75, 108.5) 4 ''black'' ''none'' \<in> set (g self'))"
proof -
  have h: "radius_rate default_board \<noteq> 0" by (simp add: default_board_def init_def)
  from make_circles_pattern_cells[of default_board] h
  obtain self' where a: "make_circles_pattern default_board = Inr self'"
    and b: "\<forall>x y. 0 \<le> x \<and> x < cols default_board \<and> 0 \<le> y \<and> y < rows default_board \<longrightarrow>
       Circle (real_of_int x * square_size default_board +
          (width default_board - ((real_of_int (cols default_board) - 1) * square_size default_board + 2 * (square_size default_board / radius_rate default_board))) / 2
          + square_size default_board / radius_rate default_board,
        real_of_int y * square_size default_board +
          (height default_board - ((real_of_int (rows default_board) - 1) * square_size default_board + 2 * (square_size default_board / radius_rate default_board))) / 2
          + square_size default_board / radius_rate default_board) (square_size default_board / radius_rate default_board) ''black'' ''none'' \<in> set (g self')"
    unfolding Let_def by blast
  from b[rule_format, of 2 3] have "Circle (75, 108.5) 4 ''black'' ''none'' \<in> set (g self')"
    by (simp add: default_board_def init_def)
  with h a show ?thesis by blast
qed

text \<open>
  The scenario as the specification states it, with the footprint (148, 108), the offsets
  (31, 94.5) and the center (35, 98.5), is not what the code computes: the footprint
  height is 10 * 20 + 8 = 208.
\<close>

theorem make_circles_pattern_scenario_counterexample:
  "circles_layout default_board \<noteq> Inr (4, 148, 108, 31, 94.5)
   \<and> (case make_circles_pattern default_board of
        Inl e \<Rightarrow> True
      | Inr self' \<Rightarrow> hd (g self') \<noteq> Circle (35, 98.5) 4 ''black'' ''none'')"
  by (simp add: make_circles_pattern_def circles_layout_def fold_fold_append
          default_board_def init_def range0_def upt_conv_Cons)

section \<open>The rounded-rectangle path\<close>

lemma join_snoc: "join sep (p # ps @ [z]) = p @ concat (map (\<lambda>q. sep @ q) ps) @ sep @ z"
  by (induction ps arbitrary: p) simp_all

lemma round_rect_loop_ok:
  assumes "\<forall>i\<in>set is. i < length corners \<and> (corners ! i = ''right'' \<or> corners ! i = ''round'')"
  shows "\<exists>ext. for_loop is (round_rect_corner fmt x y diam corners) path = Inr (path @ ext)"
  using assms
proof (induction "is" arbitrary: path)
  case Nil
  then show ?case by simp
next
  case (Cons i "is")
  from Cons.prems obtain seg where step: "round_rect_corner fmt x y diam corners i path = Inr (path @ seg)"
    by (auto simp: round_rect_corner_def Let_def)
  from Cons.prems have "\<forall>i\<in>set is. i < length corners \<and> (corners ! i = ''right'' \<or> corners ! i = ''round'')"
    by simp
  from Cons.IH[OF this, of "path @ seg"] obtain ext where
    "for_loop is (round_rect_corner fmt x y diam corners) (path @ seg) = Inr (path @ seg @ ext)"
    by auto
  with step show ?case by simp
qed

lemma round_rect_loop_error:
  assumes "\<forall>i\<in>set is. i < length corners"
  shows "for_loop is (round_rect_corner fmt x y diam corners) path = Inl e \<longleftrightarrow>
         e = TypeError \<and> (\<exists>i\<in>set is. corners ! i \<noteq> ''right'' \<and> corners ! i \<noteq> ''round'')"
  using assms
proof (induction "is" arbitrary: path)
  case Nil
  then show ?case by simp
next
  case (Cons i "is")
  show ?case
  proof (cases "corners ! i = ''right'' \<or> corners ! i = ''round''")
    case True
    with Cons.prems obtain seg where step: "round_rect_corner fmt x y diam corners i path = Inr (path @ seg)"
      by (auto simp: round_rect_corner_def Let_def)
    from Cons.prems have "\<forall>i\<in>set is. i < length corners" by simp
    from Cons.IH[OF this, of "path @ seg"] step True show ?thesis by auto
  next
    case False
    with Cons.prems have "round_rect_corner fmt x y diam corners i path = Inl TypeError"
      by (simp add: round_rect_corner_def Let_def)
    with False show ?thesis by auto
  qed
qed


lemma make_round_rect_loop:
  "make_round_rect fmt x y diam corners =
     (case for_loop [0..<4] (round_rect_corner fmt x y diam corners)
             [''M'' @ fmt (x + diam / 2) @ '','' @ fmt y] of
        Inl e \<Rightarrow> Inl e
      | Inr path' \<Rightarrow> Inr (join '' '' (path' @ [''Z''])))"
proof -
  have n: "length [(0 :: real, 0 :: real), (diam, 0), (diam, diam), (0, diam)] = 4"
    by simp
  show ?thesis unfolding make_round_rect_def Let_def n ..
qed


lemma make_round_rect_ok:
  assumes len: "length corners = 4"
    and ok: "\<forall>c\<in>set corners. c = ''right'' \<or> c = ''round''"
  shows "\<exists>rest. make_round_rect fmt x y diam corners =
           Inr (''M'' @ fmt (x + diam / 2) @ '','' @ fmt y @ rest @ '' Z'')"
proof -
  define idx :: "nat list" where "idx = [0..<4]"
  from len ok
  have "\<forall>i\<in>set idx. i < length corners \<and> (corners ! i = ''right'' \<or> corners ! i = ''round'')"
    by (simp add: idx_def)
  from round_rect_loop_ok[OF this, of fmt x y diam "[''M'' @ fmt (x + diam / 2) @ '','' @ fmt y]"]
  obtain ext where "for_loop idx (round_rect_corner fmt x y diam corners)
      [''M'' @ fmt (x + diam / 2) @ '','' @ fmt y] = Inr ([''M'' @ fmt (x + diam / 2) @ '','' @ fmt y] @ ext)"
    by blast
  then have "make_round_rect fmt x y diam corners =
      Inr (''M'' @ fmt (x + diam / 2) @ '','' @ fmt y @ concat (map (\<lambda>q. '' '' @ q) ext) @ '' Z'')"
    using join_snoc[of "'' ''" "''M'' @ fmt (x + diam / 2) @ '','' @ fmt y" ext "''Z''"]
    unfolding make_round_rect_loop idx_def[symmetric] by simp
  then show ?thesis by blast
qed


lemma make_round_rect_error:
  assumes len: "length corners = 4"
  shows "make_round_rect fmt x y diam corners = Inl e \<longleftrightarrow>
         e = TypeError \<and> (\<exists>c\<in>set corners. c \<noteq> ''right'' \<and> c \<noteq> ''round'')"
proof -
  define idx :: "nat list" where "idx = [0..<4]"
  from len have "\<forall>i\<in>set idx. i < length corners" by (simp add: idx_def)
  have "make_round_rect fmt x y diam corners = Inl e \<longleftrightarrow>
      for_loop idx (round_rect_corner fmt x y diam corners)
        [''M'' @ fmt (x + diam / 2) @ '','' @ fmt y] = Inl e"
    unfolding make_round_rect_loop idx_def[symmetric] by (simp split: sum.splits)
  also from round_rect_loop_error[OF \<open>\<forall>i\<in>set idx. i < length corners\<close>,
      of fmt x y diam "[''M'' @ fmt (x + diam / 2) @ '','' @ fmt y]" e]
  have "\<dots> \<longleftrightarrow>
         e = TypeError \<and> (\<exists>i\<in>set idx. corners ! i \<noteq> ''right'' \<and> corners ! i \<noteq> ''round'')" .
  also have "(\<exists>i\<in>set idx. corners ! i \<noteq> ''right'' \<and> corners ! i \<noteq> ''round'') \<longleftrightarrow>
      (\<exists>c\<in>set corners. c \<noteq> ''right'' \<and> c \<noteq> ''round'')"
  proof -
    have "set idx = {0..<length corners}" using len by (simp add: idx_def)
    then show ?thesis by (metis atLeastLessThan_iff in_set_conv_nth le0)
  qed
  finally show ?thesis .
qed

text \<open>
  C10.  \<open>_make_round_rect\<close> is a function of its arguments (the same path for the same
  arguments).  For every origin (x, y), every diameter and every 4-tuple of corner flags,
  each \<open>"right"\<close> or \<open>"round"\<close>, it returns a path that starts with the command
  \<open>M\<close> at the midpoint (x + diameter / 2, y) of the top edge and ends with the command
  \<open>Z\<close>, which closes the contour; on a 4-tuple it raises \<open>TypeError\<close> exactly when
  some flag is neither \<open>"right"\<close> nor \<open>"round"\<close>, and raises nothing else.
\<close>

theorem make_round_rect_total:
  "length corners = 4 \<longrightarrow>
     ((\<forall>c\<in>set corners. c = ''right'' \<or> c = ''round'') \<longrightarrow>
        (\<exists>rest. make_round_rect fmt x y diam corners =
           Inr (''M'' @ fmt (x + diam / 2) @ '','' @ fmt y @ rest @ '' Z'')))
     \<and> (make_round_rect fmt x y diam corners = Inl TypeError \<longleftrightarrow>
          (\<exists>c\<in>set corners. c \<noteq> ''right'' \<and> c \<noteq> ''round''))
     \<and> (\<forall>e. make_round_rect fmt x y diam corners = Inl e \<longrightarrow> e = TypeError)"
  using make_round_rect_ok[of corners fmt x y diam] make_round_rect_error[of corners fmt x y diam]
  by blast


theorem make_round_rect_total_witness:
  "length [''round'', ''round'', ''right'', ''round''] = 4 \<and>
   (\<exists>rest. make_round_rect (\<lambda>v. ''n'') 55 98.5 20 [''round'', ''round'', ''right'', ''round''] =
      Inr (''Mn,n'' @ rest @ '' Z'')) \<and>
   length [''round'', ''oval'', ''right'', ''round''] = 4 \<and>
   make_round_rect (\<lambda>v. ''n'') 55 98.5 20 [''round'', ''oval'', ''right'', ''round''] = Inl TypeError"
  using make_round_rect_total[of "[''round'', ''round'', ''right'', ''round'']" "\<lambda>v. ''n''" 55 "98.5" 20]
    make_round_rect_total[of "[''round'', ''oval'', ''right'', ''round'']" "\<lambda>v. ''n''" 55 "98.5" 20]
  by simp

section \<open>The Radon checkerboard\<close>

lemma upd4: "[a, b, c, d][0 := v] = [v, b, c, d]" "[a, b, c, d][1 := v] = [a, v, c, d]"
   "[a, b, c, d][2 := v] = [a, b, v, d]" "[a, b, c, d][3 := v] = [a, b, c, v]"
  by (simp_all add: numeral_2_eq_2 numeral_3_eq_3)

lemma get_type_rule:
  "get_type self x y =
        ([if x = 0 \<or> y = 0 then ''round'' else ''right'',
          if y = 0 \<or> x = cols self - 1 then ''round'' else ''right'',
          if x = cols self - 1 \<or> y = rows self - 1 then ''round'' else ''right'',
          if x = 0 \<or> y = rows self - 1 then ''round'' else ''right''],
         x \<noteq> 0 \<and> y \<noteq> 0 \<and> x \<noteq> cols self - 1 \<and> y \<noteq> rows self - 1)"
  by (simp add: get_type_def Let_def upd4)

lemma get_type_corner_5x5: "get_type board_5x5 0 0 = ([''round'', ''round'', ''right'', ''round''], False)"
  by (simp add: get_type_def board_5x5_def init_def upd4)

lemma get_type_two_edges:
  assumes "2 \<le> cols self" "2 \<le> rows self" "x = 0 \<or> x = cols self - 1" "y = 0 \<or> y = rows self - 1"
  shows "length (filter (\<lambda>c. c = ''round'') (fst (get_type self x y))) = 3 \<and> \<not> snd (get_type self x y)"
  using assms by (auto simp: get_type_def Let_def upd4)

lemma get_type_single_line:
  assumes "cols self = 1 \<or> rows self = 1" "0 \<le> x" "x < cols self" "0 \<le> y" "y < rows self"
  shows "get_type self x y = ([''round'', ''round'', ''round'', ''round''], False)"
  using assms by (auto simp: get_type_def Let_def upd4)

lemma get_type_interior:
  assumes "x \<noteq> 0" "y \<noteq> 0" "x \<noteq> cols self - 1" "y \<noteq> rows self - 1"
  shows "get_type self x y = ([''right'', ''right'', ''right'', ''right''], True)"
  using assms by (auto simp: get_type_def Let_def upd4)

lemma get_type_valid:
  "length (fst (get_type self x y)) = 4 \<and>
   (\<forall>c\<in>set (fst (get_type self x y)). c = ''right'' \<or> c = ''round'')"
  by (simp add: get_type_def Let_def upd4)

lemma get_type_inside:
  "snd (get_type self x y) \<longleftrightarrow> x \<noteq> 0 \<and> y \<noteq> 0 \<and> x \<noteq> cols self - 1 \<and> y \<noteq> rows self - 1"
  by (simp add: get_type_def Let_def upd4)

lemma radon_cell_interior:
  assumes "x \<noteq> 0" "y \<noteq> 0" "x \<noteq> cols self - 1" "y \<noteq> rows self - 1" "x mod 2 = y mod 2"
  shows "radon_cell fmt self x y grp = Inr (grp @ [Rect (real_of_int x * square_size self + (width self - real_of_int (cols self) * square_size self) / 2,
       real_of_int y * square_size self + (height self - real_of_int (rows self) * square_size self) / 2) (square_size self, square_size self) ''black'' ''none'' None])"
  using assms by (simp add: radon_cell_def Let_def get_type_interior)

lemma radon_cell_boundary:
  assumes "x = 0 \<or> y = 0 \<or> x = cols self - 1 \<or> y = rows self - 1" "x mod 2 = y mod 2"
  shows "\<exists>d. make_round_rect fmt
            (real_of_int x * square_size self + (width self - real_of_int (cols self) * square_size self) / 2)
            (real_of_int y * square_size self + (height self - real_of_int (rows self) * square_size self) / 2)
            (square_size self) (fst (get_type self x y)) = Inr d \<and>
          radon_cell fmt self x y grp = Inr (grp @ [Path d ''black'' ''none''])"
proof -
  from make_round_rect_ok[of "fst (get_type self x y)" fmt
      "real_of_int x * square_size self + (width self - real_of_int (cols self) * square_size self) / 2"
      "real_of_int y * square_size self + (height self - real_of_int (rows self) * square_size self) / 2"
      "square_size self"] get_type_valid[of self x y]
  obtain d where d: "make_round_rect fmt
            (real_of_int x * square_size self + (width self - real_of_int (cols self) * square_size self) / 2)
            (real_of_int y * square_size self + (height self - real_of_int (rows self) * square_size self) / 2)
            (square_size self) (fst (get_type self x y)) = Inr d"
    by blast
  obtain ct ins where gt: "get_type self x y = (ct, ins)"
    by (cases "get_type self x y")
  from assms(1) have "\<not> snd (get_type self x y)" by (simp add: get_type_inside)
  with d assms(2) gt have "radon_cell fmt self x y grp = Inr (grp @ [Path d ''black'' ''none''])"
    by (simp add: radon_cell_def Let_def)
  with d show ?thesis by blast
qed

text \<open>
  C2 (amended).  Each board edge a cell touches rounds the two corners on that edge:
  the top-left corner is round when the cell is in the first column or the first row, the
  top-right one in the first row or the last column, the bottom-right one in the last
  column or the last row, the bottom-left one in the first column or the last row, and a
  cell is inside when it touches no edge.  So a cell on exactly two adjacent board edges
  (a corner of a grid of at least 2 by 2 cells) gets three corners rounded, all but the
  one diagonally opposite the corner of the grid.  On a 5 x 5 board, cell (0, 0) gets the
  corner flags top-left round, top-right round, bottom-right square, bottom-left round;
  every filled cell that touches an edge is drawn as the path of \<open>_make_round_rect\<close>
  with its flags; a filled cell that touches no edge, such as (2, 2), is drawn as a plain
  rectangle; on a board of a single column or a single row every cell gets all four
  corners rounded.
\<close>

theorem radon_corner_flags:
  "get_type board_5x5 0 0 = ([''round'', ''round'', ''right'', ''round''], False)
   \<and> (\<exists>d. make_round_rect fmt 55 98.5 20 [''round'', ''round'', ''right'', ''round''] = Inr d \<and>
          radon_cell fmt board_5x5 0 0 grp = Inr (grp @ [Path d ''black'' ''none'']))
   \<and> radon_cell fmt board_5x5 2 2 grp = Inr (grp @ [Rect (95, 138.5) (20, 20) ''black'' ''none'' None])
   \<and> (2 \<le> cols self \<and> 2 \<le> rows self \<and> (x = 0 \<or> x = cols self - 1) \<and> (y = 0 \<or> y = rows self - 1) \<longrightarrow>
        length (filter (\<lambda>c. c = ''round'') (fst (get_type self x y))) = 3 \<and> \<not> snd (get_type self x y))
   \<and> (x \<noteq> 0 \<and> y \<noteq> 0 \<and> x \<noteq> cols self - 1 \<and> y \<noteq> rows self - 1 \<and> x mod 2 = y mod 2 \<longrightarrow>
        radon_cell fmt self x y grp =
          Inr (grp @ [Rect (real_of_int x * square_size self +
                              (width self - real_of_int (cols self) * square_size self) / 2,
                            real_of_int y * square_size self +
                              (height self - real_of_int (rows self) * square_size self) / 2)
                           (square_size self, square_size self) ''black'' ''none'' None]))
   \<and> ((cols self = 1 \<or> rows self = 1) \<and> 0 \<le> x \<and> x < cols self \<and> 0 \<le> y \<and> y < rows self \<longrightarrow>
        get_type self x y = ([''round'', ''round'', ''round'', ''round''], False))
   \<and> get_type self x y =
        ([if x = 0 \<or> y = 0 then ''round'' else ''right'',
          if y = 0 \<or> x = cols self - 1 then ''round'' else ''right'',
          if x = cols self - 1 \<or> y = rows self - 1 then ''round'' else ''right'',
          if x = 0 \<or> y = rows self - 1 then ''round'' else ''right''],
         x \<noteq> 0 \<and> y \<noteq> 0 \<and> x \<noteq> cols self - 1 \<and> y \<noteq> rows self - 1)
   \<and> (2 \<le> cols self \<and> 2 \<le> rows self \<longrightarrow>
        get_type self 0 0 = ([''round'', ''round'', ''right'', ''round''], False) \<and>
        get_type self (cols self - 1) 0 = ([''round'', ''round'', ''round'', ''right''], False) \<and>
        get_type self (cols self - 1) (rows self - 1) =
          ([''right'', ''round'', ''round'', ''round''], False) \<and>
        get_type self 0 (rows self - 1) = ([''round'', ''right'', ''round'', ''round''], False))
   \<and> ((x = 0 \<or> y = 0 \<or> x = cols self - 1 \<or> y = rows self - 1) \<and> x mod 2 = y mod 2 \<longrightarrow>
        (\<exists>d. make_round_rect fmt
                (real_of_int x * square_size self +
                   (width self - real_of_int (cols self) * square_size self) / 2)
                (real_of_int y * square_size self +
                   (height self - real_of_int (rows self) * square_size self) / 2)
                (square_size self) (fst (get_type self x y)) = Inr d \<and>
              radon_cell fmt self x y grp = Inr (grp @ [Path d ''black'' ''none''])))"
proof (intro conjI impI)
  show "get_type board_5x5 0 0 = ([''round'', ''round'', ''right'', ''round''], False)"
    by (rule get_type_corner_5x5)
next
  from radon_cell_boundary[of 0 0 board_5x5 fmt grp]
  show "\<exists>d. make_round_rect fmt 55 98.5 20 [''round'', ''round'', ''right'', ''round''] = Inr d \<and>
          radon_cell fmt board_5x5 0 0 grp = Inr (grp @ [Path d ''black'' ''none''])"
    by (simp add: get_type_corner_5x5) (simp add: board_5x5_def init_def)
next
  show "radon_cell fmt board_5x5 2 2 grp = Inr (grp @ [Rect (95, 138.5) (20, 20) ''black'' ''none'' None])"
    by (simp add: radon_cell_interior board_5x5_def init_def)
next
  assume "2 \<le> cols self \<and> 2 \<le> rows self \<and> (x = 0 \<or> x = cols self - 1) \<and> (y = 0 \<or> y = rows self - 1)"
  then show "length (filter (\<lambda>c. c = ''round'') (fst (get_type self x y))) = 3"
    using get_type_two_edges[of self x y] by blast
next
  assume "2 \<le> cols self \<and> 2 \<le> rows self \<and> (x = 0 \<or> x = cols self - 1) \<and> (y = 0 \<or> y = rows self - 1)"
  then show "\<not> snd (get_type self x y)"
    using get_type_two_edges[of self x y] by blast
next
  assume "x \<noteq> 0 \<and> y \<noteq> 0 \<and> x \<noteq> cols self - 1 \<and> y \<noteq> rows self - 1 \<and> x mod 2 = y mod 2"
  then show "radon_cell fmt self x y grp =
          Inr (grp @ [Rect (real_of_int x * square_size self +
                              (width self - real_of_int (cols self) * square_size self) / 2,
                            real_of_int y * square_size self +
                              (height self - real_of_int (rows self) * square_size self) / 2)
                           (square_size self, square_size self) ''black'' ''none'' None])"
    by (simp add: radon_cell_interior)
next
  assume "(cols self = 1 \<or> rows self = 1) \<and> 0 \<le> x \<and> x < cols self \<and> 0 \<le> y \<and> y < rows self"
  then show "get_type self x y = ([''round'', ''round'', ''round'', ''round''], False)"
    by (simp add: get_type_single_line)
next
  show "get_type self x y =
        ([if x = 0 \<or> y = 0 then ''round'' else ''right'',
          if y = 0 \<or> x = cols self - 1 then ''round'' else ''right'',
          if x = cols self - 1 \<or> y = rows self - 1 then ''round'' else ''right'',
          if x = 0 \<or> y = rows self - 1 then ''round'' else ''right''],
         x \<noteq> 0 \<and> y \<noteq> 0 \<and> x \<noteq> cols self - 1 \<and> y \<noteq> rows self - 1)"
    by (rule get_type_rule)
next
  assume "2 \<le> cols self \<and> 2 \<le> rows self"
  then show "get_type self 0 0 = ([''round'', ''round'', ''right'', ''round''], False)"
    by (simp add: get_type_rule)
next
  assume "2 \<le> cols self \<and> 2 \<le> rows self"
  then show "get_type self (cols self - 1) 0 = ([''round'', ''round'', ''round'', ''right''], False)"
    by (simp add: get_type_rule)
next
  assume "2 \<le> cols self \<and> 2 \<le> rows self"
  then show "get_type self (cols self - 1) (rows self - 1) =
          ([''right'', ''round'', ''round'', ''round''], False)"
    by (simp add: get_type_rule)
next
  assume "2 \<le> cols self \<and> 2 \<le> rows self"
  then show "get_type self 0 (rows self - 1) = ([''round'', ''right'', ''round'', ''round''], False)"
    by (simp add: get_type_rule)
next
  assume "(x = 0 \<or> y = 0 \<or> x = cols self - 1 \<or> y = rows self - 1) \<and> x mod 2 = y mod 2"
  then show "\<exists>d. make_round_rect fmt
                (real_of_int x * square_size self +
                   (width self - real_of_int (cols self) * square_size self) / 2)
                (real_of_int y * square_size self +
                   (height self - real_of_int (rows self) * square_size self) / 2)
                (square_size self) (fst (get_type self x y)) = Inr d \<and>
              radon_cell fmt self x y grp = Inr (grp @ [Path d ''black'' ''none''])"
    using radon_cell_boundary[of x y self fmt grp] by blast
qed

theorem radon_corner_flags_witness:
  "2 \<le> cols board_5x5 \<and> 2 \<le> rows board_5x5 \<and>
   length (filter (\<lambda>c. c = ''round'') (fst (get_type board_5x5 4 0))) = 3 \<and>
   get_type board_5x5 4 4 = ([''right'', ''round'', ''round'', ''round''], False) \<and>
   get_type board_5x5 2 0 = ([''round'', ''round'', ''right'', ''right''], False) \<and>
   (\<exists>d. radon_cell (\<lambda>v. ''n'') board_5x5 2 0 [] = Inr [Path d ''black'' ''none'']) \<and>
   radon_cell (\<lambda>v. ''n'') board_5x5 3 1 [] = Inr [Rect (115, 118.5) (20, 20) ''black'' ''none'' None] \<and>
   cols board_1x5 = 1 \<and>
   get_type board_1x5 0 2 = ([''round'', ''round'', ''round'', ''round''], False)"
proof -
  have c: "cols board_5x5 = 5" "rows board_5x5 = 5" "cols board_1x5 = 1" "rows board_1x5 = 5"
    by (simp_all add: board_5x5_def board_1x5_def init_def)
  note t1 = radon_corner_flags[of "\<lambda>v. ''n''" "[]" board_5x5 4 0]
  note t2 = radon_corner_flags[of "\<lambda>v. ''n''" "[]" board_5x5 3 1]
  note t3 = radon_corner_flags[of "\<lambda>v. ''n''" "[]" board_1x5 0 2]
  note t4 = radon_corner_flags[of "\<lambda>v. ''n''" "[]" board_5x5 2 0]
  from t1 c have 1: "length (filter (\<lambda>c. c = ''round'') (fst (get_type board_5x5 4 0))) = 3"
    "get_type board_5x5 4 4 = ([''right'', ''round'', ''round'', ''round''], False)"
    by simp_all
  from t4 c have 2: "get_type board_5x5 2 0 = ([''round'', ''round'', ''right'', ''right''], False)"
    "\<exists>d. radon_cell (\<lambda>v. ''n'') board_5x5 2 0 [] = Inr [Path d ''black'' ''none'']"
    by auto
  from t2 c have 3: "radon_cell (\<lambda>v. ''n'') board_5x5 3 1 [] =
      Inr [Rect (115, 118.5) (20, 20) ''black'' ''none'' None]"
    by (simp add: board_5x5_def init_def)
  from t3 c have 4: "get_type board_1x5 0 2 = ([''round'', ''round'', ''round'', ''round''], False)"
    by simp
  from c 1 2 3 4 show ?thesis by simp
qed

text \<open>
  The flags the specification gives for cell (0, 0) of the 5 x 5 board, with the top-right
  corner square, are not the ones \<open>_get_type\<close> returns.
\<close>

theorem radon_corner_flags_counterexample:
  "fst (get_type board_5x5 0 0) \<noteq> [''round'', ''right'', ''right'', ''round'']"
  by (simp add: get_type_corner_5x5)

section \<open>The overlay dots of the Radon checkerboard\<close>

lemma for_loop_total:
  assumes "\<And>x s. x \<in> set xs \<Longrightarrow> \<exists>s'. body x s = Inr s'"
  shows "\<exists>s'. for_loop xs body s = Inr s'"
  using assms
proof (induction xs arbitrary: s)
  case Nil
  then show ?case by simp
next
  case (Cons x xs)
  from Cons.prems[of x s] obtain s1 where s1: "body x s = Inr s1" by auto
  from Cons.IH[of s1] Cons.prems obtain s' where "for_loop xs body s1 = Inr s'" by auto
  with s1 show ?case by simp
qed

lemma radon_cell_total: "\<exists>grp'. radon_cell fmt self x y grp = Inr grp'"
proof (cases "x mod 2 = y mod 2")
  case True
  show ?thesis
  proof (cases "x = 0 \<or> y = 0 \<or> x = cols self - 1 \<or> y = rows self - 1")
    case True
    from radon_cell_boundary[OF this \<open>x mod 2 = y mod 2\<close>, of fmt grp] show ?thesis by blast
  next
    case False
    with \<open>x mod 2 = y mod 2\<close> show ?thesis by (simp add: radon_cell_interior)
  qed
next
  case False
  then show ?thesis by (simp add: radon_cell_def Let_def)
qed

lemma radon_grid_total:
  "\<exists>grp'. for_loop xs (\<lambda>x. for_loop ys (\<lambda>y. radon_cell fmt self x y)) grp = Inr grp'"
  by (rule for_loop_total, rule for_loop_total, rule radon_cell_total)

lemma get_type_markers: "get_type (self\<lparr> markers := m \<rparr>) x y = get_type self x y"
  by (simp add: get_type_def)

lemma radon_cell_markers: "radon_cell fmt (self\<lparr> markers := m \<rparr>) = radon_cell fmt self"
  by (intro ext) (simp add: radon_cell_def Let_def get_type_markers cong: if_cong)

text \<open>
  C6.  When \<open>self.markers\<close> is supplied, \<open>make_radon_checkerboard_pattern\<close> returns,
  and after the primitives of the grid (those of the same board without markers) it has
  appended one dot per supplied pair (x, y), in order and with no bounds check: a circle
  of radius squareSize * 0.17 at the position the circle-grid centering formula gives for
  that cell with this radius, filled white when x mod 2 equals y mod 2 and black
  otherwise.
\<close>

theorem radon_overlay_dots:
  "markers self = Some ms \<longrightarrow>
     (\<exists>self1 self'.
        make_radon_checkerboard_pattern fmt (self\<lparr> markers := None \<rparr>) = Inr self1 \<and>
        make_radon_checkerboard_pattern fmt self = Inr self' \<and>
        g self' = g self1 @
          map (\<lambda>(x, y).
                 let spacing = square_size self;
                     r = square_size self * 0.17;
                     x_offset = (width self - ((real_of_int (cols self) - 1) * spacing + 2 * r)) / 2;
                     y_offset = (height self - ((real_of_int (rows self) - 1) * spacing + 2 * r)) / 2
                 in Circle (real_of_int x * spacing + x_offset + r,
                            real_of_int y * spacing + y_offset + r) r
                      (if x mod 2 = y mod 2 then ''white'' else ''black'') ''none'') ms)"
proof
  assume ms: "markers self = Some ms"
  from radon_grid_total[of "range0 (cols self)" "range0 (rows self)" fmt self "g self"]
  obtain grp where grp: "for_loop (range0 (cols self))
      (\<lambda>x. for_loop (range0 (rows self)) (\<lambda>y. radon_cell fmt self x y)) (g self) = Inr grp"
    by blast
  have one: "make_radon_checkerboard_pattern fmt (self\<lparr> markers := None \<rparr>) =
      Inr (self\<lparr> markers := None, g := grp \<rparr>)"
    using grp by (simp add: make_radon_checkerboard_pattern_def radon_cell_markers)
  have two: "make_radon_checkerboard_pattern fmt self =
      Inr (self\<lparr> g := grp @ map (radon_dot self) ms \<rparr>)"
    using grp ms by (simp add: make_radon_checkerboard_pattern_def fold_append_one)
  have dots: "radon_dot self = (\<lambda>(x, y).
                 let spacing = square_size self;
                     r = square_size self * 0.17;
                     x_offset = (width self - ((real_of_int (cols self) - 1) * spacing + 2 * r)) / 2;
                     y_offset = (height self - ((real_of_int (rows self) - 1) * spacing + 2 * r)) / 2
                 in Circle (real_of_int x * spacing + x_offset + r,
                            real_of_int y * spacing + y_offset + r) r
                      (if x mod 2 = y mod 2 then ''white'' else ''black'') ''none'')"
    by (intro ext) (simp add: radon_dot_def Let_def split: prod.splits)
  from one two show "\<exists>self1 self'.
        make_radon_checkerboard_pattern fmt (self\<lparr> markers := None \<rparr>) = Inr self1 \<and>
        make_radon_checkerboard_pattern fmt self = Inr self' \<and>
        g self' = g self1 @
          map (\<lambda>(x, y).
                 let spacing = square_size self;
                     r = square_size self * 0.17;
                     x_offset = (width self - ((real_of_int (cols self) - 1) * spacing + 2 * r)) / 2;
                     y_offset = (height self - ((real_of_int (rows self) - 1) * spacing + 2 * r)) / 2
                 in Circle (real_of_int x * spacing + x_offset + r,
                            real_of_int y * spacing + y_offset + r) r
                      (if x mod 2 = y mod 2 then ''white'' else ''black'') ''none'') ms"
    unfolding dots[symmetric] by simp
qed

theorem radon_overlay_dots_witness:
  "markers board_dots = Some [(2, 2), (7, -2)] \<and>
   (\<exists>self1 self'.
      make_radon_checkerboard_pattern (\<lambda>v. ''n'') (board_dots\<lparr> markers := None \<rparr>) = Inr self1 \<and>
      make_radon_checkerboard_pattern (\<lambda>v. ''n'') board_dots = Inr self' \<and>
      g self' = g self1 @
        [Circle (115, 168.5) 3.4 ''white'' ''none'', Circle (215, 88.5) 3.4 ''black'' ''none''])"
proof -
  have m: "markers board_dots = Some [(2, 2), (7, -2)]"
    by (simp add: board_dots_def init_def)
  from radon_overlay_dots[of board_dots "[(2, 2), (7, -2)]" "\<lambda>v. ''n''"] m
  obtain self1 self' where
    "make_radon_checkerboard_pattern (\<lambda>v. ''n'') (board_dots\<lparr> markers := None \<rparr>) = Inr self1"
    "make_radon_checkerboard_pattern (\<lambda>v. ''n'') board_dots = Inr self'"
    "g self' = g self1 @
        [Circle (115, 168.5) 3.4 ''white'' ''none'', Circle (215, 88.5) 3.4 ''black'' ''none'']"
    by (auto simp: board_dots_def init_def)
  with m show ?thesis by blast
qed

section \<open>Rounding to a double\<close>

text \<open>
  The scaled value lies between \<open>2 ^ 52\<close> and \<open>2 ^ 53\<close>, so rounding it to an integer
  changes a value by at most \<open>2 ^ - 53\<close> of itself, and a half of an integer up to
  \<open>2 ^ 53\<close> is a double.
\<close>

lemma bit_length_0: "bit_length 0 = 0"
  by (simp add: bit_length.simps)

lemma bit_length_pos: "0 < n \<Longrightarrow> bit_length n = Suc (bit_length (n div 2))"
  by (subst bit_length.simps) simp

lemma bit_length_numeral:
  "bit_length (numeral k) = Suc (bit_length (numeral k div 2))"
  by (rule bit_length_pos) simp

lemma bit_length_1: "bit_length (Suc 0) = Suc 0"
  by (subst bit_length.simps) (simp add: bit_length_0)

lemma bit_length_bounds:
  "0 < n \<Longrightarrow> 2 ^ (bit_length n - 1) \<le> n \<and> n < 2 ^ bit_length n"
proof (induction n rule: bit_length.induct)
  case (1 n)
  show ?case
  proof (cases "n div 2 = 0")
    case True
    with 1(2) have "n = 1" by linarith
    then show ?thesis by (simp add: bit_length_1)
  next
    case False
    then have pos: "0 < n div 2" by simp
    from 1(1)[OF _ pos] 1(2)
    have ih: "2 ^ (bit_length (n div 2) - 1) \<le> n div 2" "n div 2 < 2 ^ bit_length (n div 2)"
      by simp_all
    have bl: "bit_length n = Suc (bit_length (n div 2))"
      using 1(2) by (rule bit_length_pos)
    from pos have b1: "0 < bit_length (n div 2)"
      by (simp add: bit_length_pos)
    then have "(2 :: nat) ^ bit_length (n div 2) = 2 * 2 ^ (bit_length (n div 2) - 1)"
      by (cases "bit_length (n div 2)") simp_all
    with ih(1) have lo: "2 ^ bit_length (n div 2) \<le> n" by linarith
    from ih(2) have "n < 2 * 2 ^ bit_length (n div 2)" by linarith
    with lo show ?thesis by (simp add: bl)
  qed
qed

lemma pow2_pos: "0 < pow2 j"
  by (simp add: pow2_def)

lemma round_half_even_error: "\<bar>real_of_int (round_half_even w) - w\<bar> \<le> 1 / 2"
  unfolding round_half_even_def Let_def by (auto; linarith)

lemma round_half_even_int: "round_half_even (real_of_int k) = k"
  by (simp add: round_half_even_def)


lemma ulp_scale_range:
  assumes "0 < v"
  shows "2 ^ 52 \<le> v * pow2 (ulp_scale v) \<and> v * pow2 (ulp_scale v) \<le> 2 ^ 53"
proof (cases "(2 :: real) ^ 52 \<le> v")
  case True
  define n where "n = nat \<lfloor>v\<rfloor>"
  define b where "b = bit_length n"
  from True have fl: "(2 :: int) ^ 52 \<le> \<lfloor>v\<rfloor>" by (simp add: le_floor_iff)
  then have n52: "2 ^ 52 \<le> n" unfolding n_def by (simp add: le_nat_iff)
  then have npos: "0 < n" by (meson less_le_trans zero_less_numeral zero_less_power)
  from bit_length_bounds[OF npos] have bb: "2 ^ (b - 1) \<le> n" "n < 2 ^ b"
    by (simp_all add: b_def)
  from n52 bb(2) have "(2 :: nat) ^ 52 < 2 ^ b" by linarith
  then have "52 < b" by (rule power_less_imp_less_exp[rotated]) simp
  then have b53: "53 \<le> b" by simp
  from assms have "0 \<le> \<lfloor>v\<rfloor>" by simp
  then have rn: "real n = real_of_int \<lfloor>v\<rfloor>" by (simp add: n_def)
  have lo: "real n \<le> v" by (simp add: rn)
  have hi: "v < real n + 1" by (simp add: rn)
  from bb(2) have "real n + 1 \<le> 2 ^ b"
    by (metis Suc_leI of_nat_Suc of_nat_le_iff of_nat_numeral of_nat_power add.commute plus_1_eq_Suc)
  with hi have vhi: "v < 2 ^ b" by linarith
  from bb(1) lo have vlo: "2 ^ (b - 1) \<le> v"
    by (metis of_nat_le_iff of_nat_numeral of_nat_power order_trans)
  have sc: "ulp_scale v = 53 - int b" using True by (simp add: ulp_scale_def n_def b_def)
  from b53 obtain k where k: "b = 53 + k" using le_Suc_ex by blast
  have p: "pow2 (ulp_scale v) = 1 / 2 ^ k"
    by (cases "k = 0") (simp_all add: sc pow2_def k)
  have e1: "(2 :: real) ^ (b - 1) = 2 ^ 52 * 2 ^ k"
    unfolding k by (simp only: power_add[symmetric]) simp
  have e2: "(2 :: real) ^ b = 2 ^ 53 * 2 ^ k"
    unfolding k by (simp only: power_add)
  have q: "(0 :: real) < 2 ^ k" by simp
  from vlo e1 have "2 ^ 52 * 2 ^ k \<le> v" by simp
  with q have A: "2 ^ 52 \<le> v / 2 ^ k" by (simp add: pos_le_divide_eq)
  from vhi e2 have "v < 2 ^ 53 * 2 ^ k" by simp
  with q have B: "v / 2 ^ k < 2 ^ 53" by (simp add: pos_divide_less_eq)
  from A B show ?thesis by (simp add: p)
next
  case False
  define t where "t = nat \<lfloor>2 ^ 52 / v\<rfloor>"
  define j where "j = bit_length t"
  from False assms have "1 < 2 ^ 52 / v" by (simp add: pos_less_divide_eq)
  then have fl: "1 \<le> \<lfloor>2 ^ 52 / v\<rfloor>" by (simp add: le_floor_iff)
  then have tpos: "0 < t" by (simp add: t_def)
  from bit_length_bounds[OF tpos] have bb: "2 ^ (j - 1) \<le> t" "t < 2 ^ j"
    by (simp_all add: j_def)
  from tpos have jpos: "0 < j" by (simp add: j_def bit_length_pos)
  from fl have "0 \<le> \<lfloor>2 ^ 52 / v\<rfloor>" by linarith
  then have rt: "real t = real_of_int \<lfloor>2 ^ 52 / v\<rfloor>" by (simp add: t_def)
  have lo: "real t \<le> 2 ^ 52 / v" by (simp add: rt)
  have hi: "2 ^ 52 / v < real t + 1" by (simp add: rt)
  from bb(2) have "real t + 1 \<le> 2 ^ j"
    by (metis Suc_leI of_nat_Suc of_nat_le_iff of_nat_numeral of_nat_power add.commute plus_1_eq_Suc)
  with hi have h2: "2 ^ 52 / v < 2 ^ j" by linarith
  from bb(1) lo have l2: "2 ^ (j - 1) \<le> 2 ^ 52 / v"
    by (metis of_nat_le_iff of_nat_numeral of_nat_power order_trans)
  have sc: "ulp_scale v = int j" using False by (simp add: ulp_scale_def t_def j_def)
  have p: "pow2 (ulp_scale v) = 2 ^ j" by (simp add: sc pow2_def)
  from h2 assms have A: "2 ^ 52 < v * 2 ^ j" by (simp add: pos_divide_less_eq mult.commute)
  from l2 assms have "v * 2 ^ (j - 1) \<le> 2 ^ 52" by (simp add: pos_le_divide_eq mult.commute)
  moreover from jpos have "(2 :: real) ^ j = 2 * 2 ^ (j - 1)" by (cases j) simp_all
  ultimately have B: "v * 2 ^ j \<le> 2 ^ 53" by simp
  from A B show ?thesis by (simp add: p)
qed


lemma rd_error: "\<bar>rd v - v\<bar> \<le> \<bar>v\<bar> / 2 ^ 53"
proof (cases "v = 0")
  case True
  then show ?thesis by (simp add: rd_def)
next
  case False
  define a where "a = \<bar>v\<bar>"
  define p where "p = pow2 (ulp_scale a)"
  define m where "m = real_of_int (round_half_even (a * p))"
  from False have apos: "0 < a" by (simp add: a_def)
  have ppos: "0 < p" by (simp add: p_def pow2_pos)
  from ulp_scale_range[OF apos] have lo: "2 ^ 52 \<le> a * p" by (simp add: p_def)
  have r: "rd v = sgn v * m / p"
    using False by (simp add: rd_def a_def p_def m_def)
  have v: "v = sgn v * a" by (simp add: a_def sgn_mult_abs)
  have "rd v - v = sgn v * (m / p - a)"
    by (subst v, subst r) (simp add: algebra_simps)
  then have "\<bar>rd v - v\<bar> = \<bar>m / p - a\<bar>"
    using False by (simp add: abs_mult abs_sgn_eq)
  also have "m / p - a = (m - a * p) / p"
    using ppos by (simp add: field_simps)
  also have "\<bar>(m - a * p) / p\<bar> = \<bar>m - a * p\<bar> / p"
    using ppos by (simp add: abs_divide)
  also have "\<dots> \<le> (1 / 2) / p"
    using round_half_even_error[of "a * p"] ppos
    by (intro divide_right_mono) (simp_all add: m_def)
  also have "\<dots> \<le> a / 2 ^ 53"
  proof -
    from lo ppos have "1 / p \<le> a / 2 ^ 52" by (simp add: field_simps)
    then show ?thesis by simp
  qed
  finally show ?thesis by (simp add: a_def)
qed

lemma rd_exact:
  assumes "0 < v" "v * pow2 (ulp_scale v) = real_of_int k"
  shows "rd v = v"
proof -
  have p: "0 < pow2 (ulp_scale v)" by (rule pow2_pos)
  from assms have "rd v = real_of_int k / pow2 (ulp_scale v)"
    by (simp add: rd_def round_half_even_int)
  also from assms(2) p have "\<dots> = v" by (simp add: field_simps)
  finally show ?thesis .
qed

lemma pow2_ge_1: "1 \<le> pow2 j \<Longrightarrow> 0 \<le> j"
proof (rule ccontr)
  assume h: "1 \<le> pow2 j" "\<not> 0 \<le> j"
  then have "pow2 j = 1 / 2 ^ nat (- j)" "0 < nat (- j)" by (simp_all add: pow2_def)
  moreover have "(1 :: real) < 2 ^ nat (- j)" using \<open>0 < nat (- j)\<close>
    by (metis one_less_numeral_iff one_less_power semiring_norm(76))
  ultimately have "pow2 j < 1" by simp
  with h(1) show False by simp
qed

lemma rd_half_exact:
  assumes "0 \<le> n" "n \<le> 2 ^ 53"
  shows "rd (real_of_int n / 2) = real_of_int n / 2"
proof (cases "n = 0")
  case True
  then show ?thesis by (simp add: rd_def)
next
  case False
  define v where "v = real_of_int n / 2"
  define j where "j = ulp_scale v"
  from False assms have vpos: "0 < v" by (simp add: v_def)
  from assms(2) have "real_of_int n \<le> 2 ^ 53"
    by (metis of_int_le_iff of_int_numeral of_int_power)
  then have vle: "v \<le> 2 ^ 52" by (simp add: v_def)
  from ulp_scale_range[OF vpos] have lo: "2 ^ 52 \<le> v * pow2 j" by (simp add: j_def)
  have "1 \<le> pow2 j"
  proof (rule ccontr)
    assume "\<not> 1 \<le> pow2 j"
    then have "pow2 j < 1" by simp
    with vpos have "v * pow2 j < v * 1" by (intro mult_strict_left_mono)
    with vle lo show False by simp
  qed
  then have j0: "0 \<le> j" by (rule pow2_ge_1)
  have "\<exists>k. v * pow2 j = real_of_int k"
  proof (cases "j = 0")
    case True
    then have "pow2 j = 1" by (simp add: pow2_def)
    with lo vle have "v = 2 ^ 52" by simp
    then have "v * pow2 j = real_of_int (2 ^ 52)" using \<open>pow2 j = 1\<close> by simp
    then show ?thesis by blast
  next
    case False
    with j0 obtain i where i: "nat j = Suc i" by (metis nat_0_iff not0_implies_Suc not_le order_antisym)
    from j0 have "pow2 j = 2 ^ nat j" by (simp add: pow2_def)
    then have "v * pow2 j = real_of_int (n * 2 ^ i)" by (simp add: v_def i)
    then show ?thesis by blast
  qed
  then obtain k where "v * pow2 (ulp_scale v) = real_of_int k" unfolding j_def by blast
  from rd_exact[OF vpos this] show ?thesis by (simp add: v_def)
qed

text \<open>The equations that evaluate \<open>rd\<close> at a numeral.\<close>

lemmas rd_eval = rd_def ulp_scale_def pow2_def round_half_even_def bit_length_numeral bit_length_1
  Let_def

lemma rd_0: "rd 0 = 0"
  by (simp add: rd_def)

lemma rd_1: "rd 1 = 1"
  by (simp add: rd_eval)

lemma size_254_double: "rd (3574732204225331 / 140737488355328) = 3574732204225331 / 140737488355328"
  by (simp add: rd_eval)

section \<open>The asymmetric circle grid\<close>

lemma b254: "square_size board_254 = 3574732204225331 / 140737488355328" "radius_rate board_254 = 5"
  "cols board_254 = 8" "rows board_254 = 11" "width board_254 = 210" "height board_254 = 297"
  by (simp_all add: board_254_def init_def)

lemma r_254: "fdiv (3574732204225331 / 140737488355328) 5 = 2859785763380265 / 562949953421312"
  by (simp add: fdiv_def rd_eval)

lemma pw_254: "fadd (fadd (fmul (fmul (fsub (float_of_int 8) 1) 2) (3574732204225331 / 140737488355328)) (3574732204225331 / 140737488355328))
                   (fmul 2 (2859785763380265 / 562949953421312)) = 3440679746566881 / 8796093022208"
  by (simp add: fadd_def fsub_def fmul_def float_of_int_def rd_eval)


lemma center_254_row0:
  "fst (acircles_center (3574732204225331 / 140737488355328)
         (- (1593500211903201 / 17592186044416)) (577727389698621 / 35184372088832)
         (2859785763380265 / 562949953421312) 3 0) = 4707668985485721 / 70368744177664"
  by (simp add: acircles_center_def fadd_def fmul_def float_of_int_def rd_eval)


lemma ph_254: "fadd (fmul (fsub (float_of_int 11) 1) (3574732204225331 / 140737488355328))
      (fmul 2 (2859785763380265 / 562949953421312)) = 4647151865492931 / 17592186044416"
  by (simp add: fadd_def fsub_def fmul_def float_of_int_def rd_eval)

lemma xs_254: "fdiv (fsub 210 (3440679746566881 / 8796093022208)) 2 = - (1593500211903201 / 17592186044416)"
  by (simp add: fdiv_def fsub_def rd_eval)

lemma ys_254: "fdiv (fsub 297 (4647151865492931 / 17592186044416)) 2 = 577727389698621 / 35184372088832"
  by (simp add: fdiv_def fsub_def rd_eval)

lemma layout_254:
  "acircles_layout board_254 =
     Inr (2859785763380265 / 562949953421312, 3440679746566881 / 8796093022208,
          4647151865492931 / 17592186044416, - (1593500211903201 / 17592186044416),
          577727389698621 / 35184372088832)"
  unfolding acircles_layout_def Let_def b254
  by (simp only: r_254 pw_254 ph_254 xs_254 ys_254) simp


lemma center_254_row1:
  "fst (acircles_center (3574732204225331 / 140737488355328)
         (- (1593500211903201 / 17592186044416)) (577727389698621 / 35184372088832)
         (2859785763380265 / 562949953421312) 3 1) = 6495035087598387 / 70368744177664"
  by (simp add: acircles_center_def fadd_def fmul_def float_of_int_def rd_eval)

lemma acircles_general:
  assumes "radius_rate self \<noteq> 0"
  shows "\<exists>r pw ph xo yo. acircles_layout self = Inr (r, pw, ph, xo, yo) \<and>
     make_acircles_pattern self =
       Inr (self\<lparr> g := g self @ concat (map (\<lambda>x. map (\<lambda>y.
          Circle (acircles_center (square_size self) xo yo r x y) r ''black'' ''none'')
          (range0 (rows self))) (range0 (cols self))) \<rparr>)"
  using assms
  by (simp add: make_acircles_pattern_def acircles_layout_def Let_def fold_fold_append)

lemma float_of_int_0: "float_of_int 0 = 0"
  by (simp add: float_of_int_def rd_0)

lemma float_of_int_1: "float_of_int 1 = 1"
  by (simp add: float_of_int_def rd_1)

lemma center_even:
  assumes "y mod 2 = 0"
  shows "fst (acircles_center s xo yo r x y) =
           fadd (fadd (fadd (fmul (float_of_int (2 * x)) s) 0) xo) r"
  using assms by (simp add: acircles_center_def float_of_int_0 fmul_def rd_0)

lemma center_odd:
  assumes "y mod 2 = 1" "rd s = s"
  shows "fst (acircles_center s xo yo r x y) =
           fadd (fadd (fadd (fmul (float_of_int (2 * x)) s) s) xo) r"
  using assms by (simp add: acircles_center_def float_of_int_1 fmul_def)

lemma mod2_succ_even: "(y :: int) mod 2 = 0 \<Longrightarrow> (y + 1) mod 2 = 1"
  by presburger

lemma mod2_succ_odd: "(y :: int) mod 2 = 1 \<Longrightarrow> (y + 1) mod 2 = 0"
  by presburger

lemma stagger_bound:
  fixes A s xo r :: real
  defines "a0 \<equiv> fadd A 0" and "a1 \<equiv> fadd A s"
  defines "b0 \<equiv> fadd a0 xo" and "b1 \<equiv> fadd a1 xo"
  shows "\<bar>fadd b1 r - fadd b0 r - s\<bar> \<le>
           (\<bar>A + 0\<bar> + \<bar>a0 + xo\<bar> + \<bar>b0 + r\<bar> + \<bar>A + s\<bar> + \<bar>a1 + xo\<bar> + \<bar>b1 + r\<bar>) / 2 ^ 53"
proof -
  define E :: "real \<Rightarrow> real" where "E = (\<lambda>v. \<bar>v\<bar> / 2 ^ 53)"
  have e: "\<bar>rd v - v\<bar> \<le> E v" for v unfolding E_def by (rule rd_error)
  note e1 = e[of "A + 0"] and e2 = e[of "a0 + xo"] and e3 = e[of "b0 + r"]
    and e4 = e[of "A + s"] and e5 = e[of "a1 + xo"] and e6 = e[of "b1 + r"]
  have "\<bar>rd (b1 + r) - rd (b0 + r) - s\<bar> \<le>
      E (A + 0) + E (a0 + xo) + E (b0 + r) + E (A + s) + E (a1 + xo) + E (b1 + r)"
    using e1 e2 e3 e4 e5 e6
    unfolding a0_def a1_def b0_def b1_def fadd_def by linarith
  then show ?thesis
    unfolding E_def fadd_def by (simp add: add_divide_distrib)
qed

text \<open>
  C7 (amended).  When radiusRate is not zero, \<open>make_acircles_pattern\<close> returns and
  appends one circle per cell, centered at \<open>acircles_center\<close> of the cell.  The
  x-coordinate of that center is 2 * x * squareSize + (y mod 2) * squareSize + xOffset + r
  as the doubles evaluate it, from left to right.  From row y to row y + 2 of the same
  column it does not move at all.  From row y to row y + 1 it moves by squareSize when
  y is even and by - squareSize when y is odd, up to the rounding of the six sums that
  the two centers take: the difference from the exact step is at most \<open>2 ^ - 53\<close> times
  the sum of the magnitudes of these sums.
\<close>

theorem acircles_stagger:
  "(radius_rate self \<noteq> 0 \<longrightarrow>
      (\<exists>r pw ph xo yo self'.
         acircles_layout self = Inr (r, pw, ph, xo, yo) \<and>
         make_acircles_pattern self = Inr self' \<and>
         g self' = g self @ concat (map (\<lambda>x. map (\<lambda>y.
           Circle (acircles_center (square_size self) xo yo r x y) r ''black'' ''none'')
           (range0 (rows self))) (range0 (cols self)))))
   \<and> fst (acircles_center s xo yo r x y) =
         fadd (fadd (fadd (fmul (float_of_int (2 * x)) s) (fmul (float_of_int (y mod 2)) s)) xo) r
   \<and> fst (acircles_center s xo yo r x (y + 2)) - fst (acircles_center s xo yo r x y) = 0
   \<and> (rd s = s \<and> y mod 2 = 0 \<longrightarrow>
        (let A = fmul (float_of_int (2 * x)) s;
             a0 = fadd A 0; b0 = fadd a0 xo;
             a1 = fadd A s; b1 = fadd a1 xo
         in \<bar>fst (acircles_center s xo yo r x (y + 1)) - fst (acircles_center s xo yo r x y) - s\<bar>
              \<le> (\<bar>A + 0\<bar> + \<bar>a0 + xo\<bar> + \<bar>b0 + r\<bar> + \<bar>A + s\<bar> + \<bar>a1 + xo\<bar> + \<bar>b1 + r\<bar>) / 2 ^ 53))
   \<and> (rd s = s \<and> y mod 2 = 1 \<longrightarrow>
        (let A = fmul (float_of_int (2 * x)) s;
             a0 = fadd A 0; b0 = fadd a0 xo;
             a1 = fadd A s; b1 = fadd a1 xo
         in \<bar>fst (acircles_center s xo yo r x (y + 1)) - fst (acircles_center s xo yo r x y) + s\<bar>
              \<le> (\<bar>A + 0\<bar> + \<bar>a0 + xo\<bar> + \<bar>b0 + r\<bar> + \<bar>A + s\<bar> + \<bar>a1 + xo\<bar> + \<bar>b1 + r\<bar>) / 2 ^ 53))"
proof (intro conjI impI)
  assume "radius_rate self \<noteq> 0"
  from acircles_general[OF this] show "\<exists>r pw ph xo yo self'.
         acircles_layout self = Inr (r, pw, ph, xo, yo) \<and>
         make_acircles_pattern self = Inr self' \<and>
         g self' = g self @ concat (map (\<lambda>x. map (\<lambda>y.
           Circle (acircles_center (square_size self) xo yo r x y) r ''black'' ''none'')
           (range0 (rows self))) (range0 (cols self)))"
    by force
next
  show "fst (acircles_center s xo yo r x y) =
         fadd (fadd (fadd (fmul (float_of_int (2 * x)) s) (fmul (float_of_int (y mod 2)) s)) xo) r"
    by (simp add: acircles_center_def)
next
  show "fst (acircles_center s xo yo r x (y + 2)) - fst (acircles_center s xo yo r x y) = 0"
    by (simp add: acircles_center_def)
next
  assume h: "rd s = s \<and> y mod 2 = 0"
  then have "(y + 1) mod 2 = 1" by (simp add: mod2_succ_even)
  with h have "fst (acircles_center s xo yo r x (y + 1)) =
      fadd (fadd (fadd (fmul (float_of_int (2 * x)) s) s) xo) r"
    "fst (acircles_center s xo yo r x y) =
      fadd (fadd (fadd (fmul (float_of_int (2 * x)) s) 0) xo) r"
    by (simp_all add: center_even center_odd)
  then show "let A = fmul (float_of_int (2 * x)) s;
             a0 = fadd A 0; b0 = fadd a0 xo;
             a1 = fadd A s; b1 = fadd a1 xo
         in \<bar>fst (acircles_center s xo yo r x (y + 1)) - fst (acircles_center s xo yo r x y) - s\<bar>
              \<le> (\<bar>A + 0\<bar> + \<bar>a0 + xo\<bar> + \<bar>b0 + r\<bar> + \<bar>A + s\<bar> + \<bar>a1 + xo\<bar> + \<bar>b1 + r\<bar>) / 2 ^ 53"
    unfolding Let_def using stagger_bound[of "fmul (float_of_int (2 * x)) s" s xo r]
    by (simp only:)
next
  assume h: "rd s = s \<and> y mod 2 = 1"
  then have "(y + 1) mod 2 = 0" by (simp add: mod2_succ_odd)
  with h have "fst (acircles_center s xo yo r x (y + 1)) =
      fadd (fadd (fadd (fmul (float_of_int (2 * x)) s) 0) xo) r"
    "fst (acircles_center s xo yo r x y) =
      fadd (fadd (fadd (fmul (float_of_int (2 * x)) s) s) xo) r"
    by (simp_all add: center_even center_odd)
  then show "let A = fmul (float_of_int (2 * x)) s;
             a0 = fadd A 0; b0 = fadd a0 xo;
             a1 = fadd A s; b1 = fadd a1 xo
         in \<bar>fst (acircles_center s xo yo r x (y + 1)) - fst (acircles_center s xo yo r x y) + s\<bar>
              \<le> (\<bar>A + 0\<bar> + \<bar>a0 + xo\<bar> + \<bar>b0 + r\<bar> + \<bar>A + s\<bar> + \<bar>a1 + xo\<bar> + \<bar>b1 + r\<bar>) / 2 ^ 53"
    unfolding Let_def using stagger_bound[of "fmul (float_of_int (2 * x)) s" s xo r]
    by (simp only: abs_minus_commute[of "fadd (fadd (fadd (fmul (float_of_int (2 * x)) s) 0) xo) r - fadd (fadd (fadd (fmul (float_of_int (2 * x)) s) s) xo) r + s"]) linarith
qed


theorem acircles_stagger_witness:
  "radius_rate board_254 \<noteq> 0 \<and>
   (\<exists>self'. make_acircles_pattern board_254 = Inr self') \<and>
   rd (3574732204225331 / 140737488355328) = (3574732204225331 / 140737488355328) \<and>
   (0 :: int) mod 2 = 0 \<and>
   (let A = fmul (float_of_int (2 * 3)) (3574732204225331 / 140737488355328);
        a0 = fadd A 0; b0 = fadd a0 (- (1593500211903201 / 17592186044416));
        a1 = fadd A (3574732204225331 / 140737488355328); b1 = fadd a1 (- (1593500211903201 / 17592186044416))
    in \<bar>fst (acircles_center (3574732204225331 / 140737488355328) (- (1593500211903201 / 17592186044416)) (577727389698621 / 35184372088832) (2859785763380265 / 562949953421312) 3 (0 + 1)) - fst (acircles_center (3574732204225331 / 140737488355328) (- (1593500211903201 / 17592186044416)) (577727389698621 / 35184372088832) (2859785763380265 / 562949953421312) 3 0) - (3574732204225331 / 140737488355328)\<bar>
         \<le> (\<bar>A + 0\<bar> + \<bar>a0 + (- (1593500211903201 / 17592186044416))\<bar> + \<bar>b0 + (2859785763380265 / 562949953421312)\<bar> + \<bar>A + (3574732204225331 / 140737488355328)\<bar> + \<bar>a1 + (- (1593500211903201 / 17592186044416))\<bar> + \<bar>b1 + (2859785763380265 / 562949953421312)\<bar>) / 2 ^ 53) \<and>
   (1 :: int) mod 2 = 1 \<and>
   (let A = fmul (float_of_int (2 * 3)) (3574732204225331 / 140737488355328);
        a0 = fadd A 0; b0 = fadd a0 (- (1593500211903201 / 17592186044416));
        a1 = fadd A (3574732204225331 / 140737488355328); b1 = fadd a1 (- (1593500211903201 / 17592186044416))
    in \<bar>fst (acircles_center (3574732204225331 / 140737488355328) (- (1593500211903201 / 17592186044416)) (577727389698621 / 35184372088832) (2859785763380265 / 562949953421312) 3 (1 + 1)) - fst (acircles_center (3574732204225331 / 140737488355328) (- (1593500211903201 / 17592186044416)) (577727389698621 / 35184372088832) (2859785763380265 / 562949953421312) 3 1) + (3574732204225331 / 140737488355328)\<bar>
         \<le> (\<bar>A + 0\<bar> + \<bar>a0 + (- (1593500211903201 / 17592186044416))\<bar> + \<bar>b0 + (2859785763380265 / 562949953421312)\<bar> + \<bar>A + (3574732204225331 / 140737488355328)\<bar> + \<bar>a1 + (- (1593500211903201 / 17592186044416))\<bar> + \<bar>b1 + (2859785763380265 / 562949953421312)\<bar>) / 2 ^ 53)"
proof -
  have h: "radius_rate board_254 \<noteq> 0" by (simp add: b254)
  have d: "rd (3574732204225331 / 140737488355328) = (3574732204225331 / 140737488355328)" by (rule size_254_double)
  note t0 = acircles_stagger[of board_254 "3574732204225331 / 140737488355328" "- (1593500211903201 / 17592186044416)" "577727389698621 / 35184372088832" "2859785763380265 / 562949953421312" 3 0]
  note t1 = acircles_stagger[of board_254 "3574732204225331 / 140737488355328" "- (1593500211903201 / 17592186044416)" "577727389698621 / 35184372088832" "2859785763380265 / 562949953421312" 3 1]
  from t0 h have 1: "\<exists>self'. make_acircles_pattern board_254 = Inr self'" by blast
  have 2: "(let A = fmul (float_of_int (2 * 3)) (3574732204225331 / 140737488355328);
        a0 = fadd A 0; b0 = fadd a0 (- (1593500211903201 / 17592186044416));
        a1 = fadd A (3574732204225331 / 140737488355328); b1 = fadd a1 (- (1593500211903201 / 17592186044416))
    in \<bar>fst (acircles_center (3574732204225331 / 140737488355328) (- (1593500211903201 / 17592186044416)) (577727389698621 / 35184372088832) (2859785763380265 / 562949953421312) 3 (0 + 1)) - fst (acircles_center (3574732204225331 / 140737488355328) (- (1593500211903201 / 17592186044416)) (577727389698621 / 35184372088832) (2859785763380265 / 562949953421312) 3 0) - (3574732204225331 / 140737488355328)\<bar>
         \<le> (\<bar>A + 0\<bar> + \<bar>a0 + (- (1593500211903201 / 17592186044416))\<bar> + \<bar>b0 + (2859785763380265 / 562949953421312)\<bar> + \<bar>A + (3574732204225331 / 140737488355328)\<bar> + \<bar>a1 + (- (1593500211903201 / 17592186044416))\<bar> + \<bar>b1 + (2859785763380265 / 562949953421312)\<bar>) / 2 ^ 53)"
    by (rule t0[THEN conjunct2, THEN conjunct2, THEN conjunct2, THEN conjunct1, THEN mp])
       (simp add: d)
  have 3: "(let A = fmul (float_of_int (2 * 3)) (3574732204225331 / 140737488355328);
        a0 = fadd A 0; b0 = fadd a0 (- (1593500211903201 / 17592186044416));
        a1 = fadd A (3574732204225331 / 140737488355328); b1 = fadd a1 (- (1593500211903201 / 17592186044416))
    in \<bar>fst (acircles_center (3574732204225331 / 140737488355328) (- (1593500211903201 / 17592186044416)) (577727389698621 / 35184372088832) (2859785763380265 / 562949953421312) 3 (1 + 1)) - fst (acircles_center (3574732204225331 / 140737488355328) (- (1593500211903201 / 17592186044416)) (577727389698621 / 35184372088832) (2859785763380265 / 562949953421312) 3 1) + (3574732204225331 / 140737488355328)\<bar>
         \<le> (\<bar>A + 0\<bar> + \<bar>a0 + (- (1593500211903201 / 17592186044416))\<bar> + \<bar>b0 + (2859785763380265 / 562949953421312)\<bar> + \<bar>A + (3574732204225331 / 140737488355328)\<bar> + \<bar>a1 + (- (1593500211903201 / 17592186044416))\<bar> + \<bar>b1 + (2859785763380265 / 562949953421312)\<bar>) / 2 ^ 53)"
    by (rule t1[THEN conjunct2, THEN conjunct2, THEN conjunct2, THEN conjunct2, THEN mp])
       (simp add: d)
  from h 1 d 2 3 show ?thesis by simp
qed

text \<open>
  The step is not always exactly squareSize: with squares of 25.4 on the default board,
  the circles of the cells (3, 0) and (3, 1) are \<open>893683051056333 / 2 ^ 45\<close> apart, which
  is 25.400000000000006 and not 25.4.
\<close>

theorem acircles_stagger_counterexample:
  "rd (square_size board_254) = square_size board_254 \<and>
   acircles_layout board_254 = Inr ((2859785763380265 / 562949953421312), 3440679746566881 / 8796093022208,
      4647151865492931 / 17592186044416, (- (1593500211903201 / 17592186044416)), (577727389698621 / 35184372088832)) \<and>
   fst (acircles_center (square_size board_254) (- (1593500211903201 / 17592186044416)) (577727389698621 / 35184372088832) (2859785763380265 / 562949953421312) 3 1) -
     fst (acircles_center (square_size board_254) (- (1593500211903201 / 17592186044416)) (577727389698621 / 35184372088832) (2859785763380265 / 562949953421312) 3 0) =
     893683051056333 / 35184372088832 \<and>
   893683051056333 / 35184372088832 \<noteq> square_size board_254"
  by (simp add: b254 size_254_double layout_254 center_254_row0 center_254_row1)

section \<open>Repeated serialization\<close>

lemma serialize_step: "serialize c self = (tostring self @ [GroupElement (g self)], self\<lparr> dwg := dwg self @ [GroupRef] \<rparr>)"
  by (cases c) (simp_all add: get_svg_string_def save_def tostring_def)

lemma serialize_all_snoc:
  "serialize_all (calls @ [c]) self =
     (Some (fst (serialize c (snd (serialize_all calls self)))), snd (serialize c (snd (serialize_all calls self))))"
  by (simp add: serialize_all_def split: prod.splits)

lemma serialize_all_state:
  "snd (serialize_all calls self) = self\<lparr> dwg := dwg self @ replicate (length calls) GroupRef \<rparr>"
proof (induction calls rule: rev_induct)
  case Nil
  then show ?case by (simp add: serialize_all_def)
next
  case (snoc c calls)
  then show ?case
    by (simp add: serialize_all_snoc serialize_step replicate_append_same)
qed

lemma serialize_all_doc:
  "fst (serialize_all (calls @ [c]) self) =
     Some (tostring self @ replicate (Suc (length calls)) (GroupElement (g self)))"
  by (simp add: serialize_all_snoc serialize_all_state serialize_step tostring_def replicate_append_same
        split: svg_child.splits)

text \<open>
  C9.  Every call of \<open>get_svg_string\<close> or \<open>save\<close> adds the group to the drawing once
  more: after any sequence of calls the drawing has one more reference to the group per
  call, and the document of the k-th call shows k copies of the whole group after what the
  drawing held before, which for a drawing as \<open>__init__\<close> makes it is the \<open>defs\<close>
  element alone.  On the default board, right after \<open>make_circles_pattern\<close>, the first
  document holds the group once and the second one, by either method, twice.
\<close>

theorem serialization_duplicates_group:
  "snd (serialize_all calls self) = self\<lparr> dwg := dwg self @ replicate (length calls) GroupRef \<rparr>
   \<and> fst (serialize_all (calls @ [c]) self) =
       Some (tostring self @ replicate (Suc (length calls)) (GroupElement (g self)))
   \<and> fst (serialize_all (calls @ [c]) (self\<lparr> dwg := [Defs] \<rparr>)) =
       Some (DefsElement # replicate (Suc (length calls)) (GroupElement (g self)))
   \<and> (case make_circles_pattern default_board of
         Inl e \<Rightarrow> False
       | Inr self' \<Rightarrow>
           g self' \<noteq> [] \<and>
           fst (get_svg_string self') = [DefsElement, GroupElement (g self')] \<and>
           fst (get_svg_string (snd (get_svg_string self'))) =
             [DefsElement, GroupElement (g self'), GroupElement (g self')] \<and>
           fst (save (snd (get_svg_string self'))) =
             [DefsElement, GroupElement (g self'), GroupElement (g self')])"
proof (intro conjI)
  show "snd (serialize_all calls self) = self\<lparr> dwg := dwg self @ replicate (length calls) GroupRef \<rparr>"
    by (rule serialize_all_state)
next
  show "fst (serialize_all (calls @ [c]) self) =
       Some (tostring self @ replicate (Suc (length calls)) (GroupElement (g self)))"
    by (rule serialize_all_doc)
next
  show "fst (serialize_all (calls @ [c]) (self\<lparr> dwg := [Defs] \<rparr>)) =
       Some (DefsElement # replicate (Suc (length calls)) (GroupElement (g self)))"
    by (simp only: serialize_all_doc) (simp add: tostring_def)
next
  have "\<exists>self' c ps. make_circles_pattern default_board = Inr self' \<and>
          g self' = c # ps \<and> dwg self' = [Defs]"
    by (simp add: make_circles_pattern_def circles_layout_def fold_fold_append
          default_board_def init_def range0_def upt_conv_Cons)
  then obtain self' c ps where run: "make_circles_pattern default_board = Inr self'"
    and grp: "g self' = c # ps" and d: "dwg self' = [Defs]"
    by blast
  from grp have "g self' \<noteq> []" by simp
  moreover from d have "fst (get_svg_string self') = [DefsElement, GroupElement (g self')]"
    by (simp add: get_svg_string_def tostring_def)
  moreover from d have "fst (get_svg_string (snd (get_svg_string self'))) =
             [DefsElement, GroupElement (g self'), GroupElement (g self')]"
    by (simp add: get_svg_string_def tostring_def)
  moreover from d have "fst (save (snd (get_svg_string self'))) =
             [DefsElement, GroupElement (g self'), GroupElement (g self')]"
    by (simp add: get_svg_string_def save_def tostring_def)
  ultimately show "case make_circles_pattern default_board of
         Inl e \<Rightarrow> False
       | Inr self' \<Rightarrow>
           g self' \<noteq> [] \<and>
           fst (get_svg_string self') = [DefsElement, GroupElement (g self')] \<and>
           fst (get_svg_string (snd (get_svg_string self'))) =
             [DefsElement, GroupElement (g self'), GroupElement (g self')] \<and>
           fst (save (snd (get_svg_string self'))) =
             [DefsElement, GroupElement (g self'), GroupElement (g self')]"
    by (simp add: run)
qed

section \<open>The bit grid of a marker\<close>

lemma for_loop_append:
  "for_loop (xs @ ys) body s =
     (case for_loop xs body s of Inl e \<Rightarrow> Inl e | Inr s' \<Rightarrow> for_loop ys body s')"
  by (induction xs arbitrary: s) (simp_all split: sum.splits)

lemma for_loop_range_inv:
  assumes init: "P 0 s"
    and step: "\<And>i s. i < n \<Longrightarrow> P i s \<Longrightarrow> \<exists>s'. body (int i) s = Inr s' \<and> P (Suc i) s'"
  shows "\<exists>s'. for_loop (range0 (int n)) body s = Inr s' \<and> P n s'"
proof -
  have "m \<le> n \<Longrightarrow> \<exists>s'. for_loop (map int [0..<m]) body s = Inr s' \<and> P m s'" for m
  proof (induction m)
    case 0
    with init show ?case by simp
  next
    case (Suc m)
    then obtain s1 where s1: "for_loop (map int [0..<m]) body s = Inr s1" "P m s1"
      by auto
    from Suc.prems step[of m s1] s1(2) obtain s2 where "body (int m) s1 = Inr s2" "P (Suc m) s2"
      by auto
    with s1 show ?case by (simp add: for_loop_append)
  qed
  from this[of n] show ?thesis by (simp add: range0_def)
qed

lemma grid_update_nth:
  assumes "i < length m" "j < length (m ! i)" "a < length m" "b < length (m ! a)"
  shows "(m[i := (m ! i)[j := v]]) ! a ! b = (if a = i \<and> b = j then v else m ! a ! b)"
  using assms by (cases "a = i") (simp_all add: nth_list_update)

lemma grid_update_length:
  assumes "a < length m"
  shows "length ((m[i := (m ! i)[j := v]]) ! a) = length (m ! a)"
  using assms by (cases "a = i") simp_all

lemma marker_row_loop:
  fixes n i :: nat and bl :: string and m0 :: "int list list"
  assumes i: "i < n"
    and len: "n * n \<le> length bl"
    and dig: "\<forall>k < n * n. int_of_char (bl ! k) \<noteq> None"
    and shape: "length m0 = n + 2" "\<forall>a < n + 2. length (m0 ! a) = n + 2"
  shows "\<exists>m. for_loop (range0 (int n)) (\<lambda>j marker.
               let k = nat (int i * int n + j) in
               if \<not> k < length bl then Inl IndexError
               else case int_of_char (bl ! k) of
                      None \<Rightarrow> Inl ValueError
                    | Some v \<Rightarrow>
                        Inr (marker[nat (1 + int i) := (marker ! nat (1 + int i))[nat (1 + j) := v]])) m0 = Inr m
           \<and> length m = n + 2 \<and> (\<forall>a < n + 2. length (m ! a) = n + 2)
           \<and> (\<forall>a < n + 2. \<forall>b < n + 2. m ! a ! b =
                 (if a = Suc i \<and> 1 \<le> b \<and> b \<le> n then digit_at bl (i * n + (b - 1)) else m0 ! a ! b))"
proof -
  let ?P = "\<lambda>j (m :: int list list). length m = n + 2 \<and> (\<forall>a < n + 2. length (m ! a) = n + 2)
           \<and> (\<forall>a < n + 2. \<forall>b < n + 2. m ! a ! b =
                 (if a = Suc i \<and> 1 \<le> b \<and> b \<le> j then digit_at bl (i * n + (b - 1)) else m0 ! a ! b))"
  have "\<exists>m. for_loop (range0 (int n)) (\<lambda>j marker.
               let k = nat (int i * int n + j) in
               if \<not> k < length bl then Inl IndexError
               else case int_of_char (bl ! k) of
                      None \<Rightarrow> Inl ValueError
                    | Some v \<Rightarrow>
                        Inr (marker[nat (1 + int i) := (marker ! nat (1 + int i))[nat (1 + j) := v]])) m0 = Inr m
          \<and> ?P n m"
  proof (rule for_loop_range_inv[where P = ?P])
    from shape show "?P 0 m0" by simp
  next
    fix j and m :: "int list list"
    assume j: "j < n" and P: "?P j m"
    have k: "nat (int i * int n + int j) = i * n + j"
      by (simp add: nat_add_distrib nat_mult_distrib)
    have "i * n + j < n * n"
    proof -
      from i have "Suc i * n \<le> n * n" by (intro mult_le_mono1) simp
      with j show ?thesis by simp
    qed
    with len dig obtain v where v: "int_of_char (bl ! (i * n + j)) = Some v" and kl: "i * n + j < length bl"
      by (metis not_Some_eq le_trans not_le)
    have step: "(let k = nat (int i * int n + int j) in
               if \<not> k < length bl then Inl IndexError
               else case int_of_char (bl ! k) of
                      None \<Rightarrow> Inl ValueError
                    | Some v \<Rightarrow>
                        Inr (m[nat (1 + int i) := (m ! nat (1 + int i))[nat (1 + int j) := v]]))
            = Inr (m[Suc i := (m ! Suc i)[Suc j := v]])"
      using v kl by (simp add: k Let_def nat_add_distrib)
    have "?P (Suc j) (m[Suc i := (m ! Suc i)[Suc j := v]])"
    proof (intro conjI allI impI)
      from P show "length (m[Suc i := (m ! Suc i)[Suc j := v]]) = n + 2" by simp
    next
      fix a assume "a < n + 2"
      with P show "length (m[Suc i := (m ! Suc i)[Suc j := v]] ! a) = n + 2"
        by (simp add: grid_update_length)
    next
      fix a b assume ab: "a < n + 2" "b < n + 2"
      from P i j ab have "(m[Suc i := (m ! Suc i)[Suc j := v]]) ! a ! b =
          (if a = Suc i \<and> b = Suc j then v else m ! a ! b)"
        by (intro grid_update_nth) simp_all
      also from P ab have "m ! a ! b =
          (if a = Suc i \<and> 1 \<le> b \<and> b \<le> j then digit_at bl (i * n + (b - 1)) else m0 ! a ! b)"
        by blast
      finally show "(m[Suc i := (m ! Suc i)[Suc j := v]]) ! a ! b =
          (if a = Suc i \<and> 1 \<le> b \<and> b \<le> Suc j then digit_at bl (i * n + (b - 1)) else m0 ! a ! b)"
        using v by (cases "b = Suc j") (simp_all add: digit_at_def le_Suc_eq)
    qed
    with step show "\<exists>s'. (let k = nat (int i * int n + int j) in
               if \<not> k < length bl then Inl IndexError
               else case int_of_char (bl ! k) of
                      None \<Rightarrow> Inl ValueError
                    | Some v \<Rightarrow>
                        Inr (m[nat (1 + int i) := (m ! nat (1 + int i))[nat (1 + int j) := v]])) = Inr s' \<and> ?P (Suc j) s'"
      by blast
  qed
  then show ?thesis by blast
qed


lemma zeros_nth:
  "a < N \<Longrightarrow> b < N \<Longrightarrow> replicate N (replicate N (0 :: int)) ! a ! b = 0"
  by simp

lemma zeros_length:
  "a < N \<Longrightarrow> length (replicate N (replicate N (0 :: int)) ! a) = N"
  by simp

lemma create_marker_bits_nat:
  fixes n :: nat and bl :: string
  assumes len: "n * n \<le> length bl"
    and dig: "\<forall>k < n * n. int_of_char (bl ! k) \<noteq> None"
  shows "\<exists>grid. create_marker_bits (int n) bl = Inr grid
           \<and> length grid = n + 2 \<and> (\<forall>a < n + 2. length (grid ! a) = n + 2)
           \<and> (\<forall>a < n + 2. \<forall>b < n + 2. grid ! a ! b =
                 (if 1 \<le> a \<and> a \<le> n \<and> 1 \<le> b \<and> b \<le> n
                  then digit_at bl ((a - 1) * n + (b - 1)) else 0))"
proof -
  let ?Q = "\<lambda>i (m :: int list list). length m = n + 2 \<and> (\<forall>a < n + 2. length (m ! a) = n + 2)
           \<and> (\<forall>a < n + 2. \<forall>b < n + 2. m ! a ! b =
                 (if 1 \<le> a \<and> a \<le> i \<and> 1 \<le> b \<and> b \<le> n
                  then digit_at bl ((a - 1) * n + (b - 1)) else 0))"
  let ?inner = "\<lambda>i. for_loop (range0 (int n)) (\<lambda>j marker.
               let k = nat (i * int n + j) in
               if \<not> k < length bl then Inl IndexError
               else case int_of_char (bl ! k) of
                      None \<Rightarrow> Inl ValueError
                    | Some v \<Rightarrow>
                        Inr (marker[nat (1 + i) := (marker ! nat (1 + i))[nat (1 + j) := v]]))"
  have "\<exists>grid. for_loop (range0 (int n)) ?inner (replicate (n + 2) (replicate (n + 2) 0)) = Inr grid
          \<and> ?Q n grid"
  proof (rule for_loop_range_inv[where P = ?Q])
    show "?Q 0 (replicate (n + 2) (replicate (n + 2) 0))"
    proof (intro conjI allI impI)
      show "length (replicate (n + 2) (replicate (n + 2) (0 :: int))) = n + 2"
        by (rule length_replicate)
    next
      fix a assume "a < n + 2"
      then show "length (replicate (n + 2) (replicate (n + 2) (0 :: int)) ! a) = n + 2"
        by (rule zeros_length)
    next
      fix a b assume "a < n + 2" "b < n + 2"
      then have "replicate (n + 2) (replicate (n + 2) (0 :: int)) ! a ! b = 0"
        by (rule zeros_nth)
      then show "replicate (n + 2) (replicate (n + 2) 0) ! a ! b =
          (if 1 \<le> a \<and> a \<le> 0 \<and> 1 \<le> b \<and> b \<le> n
           then digit_at bl ((a - 1) * n + (b - 1)) else 0)"
        by (simp del: replicate.simps add_2_eq_Suc add_2_eq_Suc')
    qed
  next
    fix i and m :: "int list list"
    assume i: "i < n" and Q: "?Q i m"
    from Q have shape: "length m = n + 2" "\<forall>a < n + 2. length (m ! a) = n + 2" by blast+
    from marker_row_loop[OF i len dig shape] obtain m' where
      run: "?inner (int i) m = Inr m'" and
      shape': "length m' = n + 2" "\<forall>a < n + 2. length (m' ! a) = n + 2" and
      ent: "\<forall>a < n + 2. \<forall>b < n + 2. m' ! a ! b =
                 (if a = Suc i \<and> 1 \<le> b \<and> b \<le> n then digit_at bl (i * n + (b - 1)) else m ! a ! b)"
      by blast
    have "m' ! a ! b = (if 1 \<le> a \<and> a \<le> Suc i \<and> 1 \<le> b \<and> b \<le> n
                  then digit_at bl ((a - 1) * n + (b - 1)) else 0)"
      if ab: "a < n + 2" "b < n + 2" for a b
    proof (cases "a = Suc i")
      case True
      with ent ab Q show ?thesis by simp
    next
      case False
      with ent ab have "m' ! a ! b = m ! a ! b" by simp
      also from Q ab have "\<dots> = (if 1 \<le> a \<and> a \<le> i \<and> 1 \<le> b \<and> b \<le> n
                  then digit_at bl ((a - 1) * n + (b - 1)) else 0)" by blast
      finally show ?thesis using False by (simp add: le_Suc_eq)
    qed
    with shape' have "?Q (Suc i) m'" by blast
    with run show "\<exists>s'. ?inner (int i) m = Inr s' \<and> ?Q (Suc i) s'" by blast
  qed
  then obtain grid where run: "for_loop (range0 (int n)) ?inner (replicate (n + 2) (replicate (n + 2) 0)) = Inr grid"
    and Q: "?Q n grid" by blast
  have n2: "nat (int n + 2) = n + 2" by (simp add: nat_add_distrib)
  from run have "create_marker_bits (int n) bl = Inr grid"
    unfolding create_marker_bits_def Let_def n2 by simp
  with Q show ?thesis by blast
qed

text \<open>
  C5.  For every bitsPerSide \<open>n \<ge> 1\<close> and every flat sequence of \<open>n * n\<close> digit
  characters, \<open>_create_marker_bits\<close> returns a grid of \<open>n + 2\<close> rows of \<open>n + 2\<close>
  cells whose outer ring (row 0, row \<open>n + 1\<close>, column 0, column \<open>n + 1\<close>) is 0
  everywhere and whose inner block holds the sequence row by row, one cell in from each
  side: \<open>grid[1 + i][1 + j] = int(byteList[i * n + j])\<close> for all \<open>i, j < n\<close>.
\<close>

theorem create_marker_bits_grid:
  "1 \<le> n \<and> length byteList = n * n \<and> (\<forall>c\<in>set byteList. int_of_char c \<noteq> None) \<longrightarrow>
     (\<exists>grid. create_marker_bits (int n) byteList = Inr grid \<and>
        length grid = n + 2 \<and> (\<forall>row\<in>set grid. length row = n + 2) \<and>
        (\<forall>k < n + 2. grid ! 0 ! k = 0 \<and> grid ! (n + 1) ! k = 0 \<and>
                      grid ! k ! 0 = 0 \<and> grid ! k ! (n + 1) = 0) \<and>
        (\<forall>i < n. \<forall>j < n.
           int_of_char (byteList ! (i * n + j)) = Some (grid ! (1 + i) ! (1 + j))))"
proof
  assume h: "1 \<le> n \<and> length byteList = n * n \<and> (\<forall>c\<in>set byteList. int_of_char c \<noteq> None)"
  then have len: "n * n \<le> length byteList"
    and dig: "\<forall>k < n * n. int_of_char (byteList ! k) \<noteq> None"
    by simp_all
  from create_marker_bits_nat[OF len dig] obtain grid where
    run: "create_marker_bits (int n) byteList = Inr grid" and
    l: "length grid = n + 2" and
    rows: "\<forall>a < n + 2. length (grid ! a) = n + 2" and
    ent: "\<forall>a < n + 2. \<forall>b < n + 2. grid ! a ! b =
                 (if 1 \<le> a \<and> a \<le> n \<and> 1 \<le> b \<and> b \<le> n
                  then digit_at byteList ((a - 1) * n + (b - 1)) else 0)"
    by blast
  from l rows have rows': "\<forall>row\<in>set grid. length row = n + 2"
    by (auto simp: in_set_conv_nth)
  have ring: "grid ! 0 ! k = 0 \<and> grid ! (n + 1) ! k = 0 \<and> grid ! k ! 0 = 0 \<and> grid ! k ! (n + 1) = 0"
    if "k < n + 2" for k
    using that ent by simp
  have inner: "int_of_char (byteList ! (i * n + j)) = Some (grid ! (1 + i) ! (1 + j))"
    if ij: "i < n" "j < n" for i j
  proof -
    from ij have "Suc i * n \<le> n * n" by (intro mult_le_mono1) simp
    with ij have "i * n + j < n * n" by simp
    with dig obtain v where v: "int_of_char (byteList ! (i * n + j)) = Some v" by blast
    from ij ent have "grid ! (1 + i) ! (1 + j) = digit_at byteList (i * n + j)" by simp
    with v show ?thesis by (simp add: digit_at_def)
  qed
  from run l rows' ring inner
  show "\<exists>grid. create_marker_bits (int n) byteList = Inr grid \<and>
        length grid = n + 2 \<and> (\<forall>row\<in>set grid. length row = n + 2) \<and>
        (\<forall>k < n + 2. grid ! 0 ! k = 0 \<and> grid ! (n + 1) ! k = 0 \<and>
                      grid ! k ! 0 = 0 \<and> grid ! k ! (n + 1) = 0) \<and>
        (\<forall>i < n. \<forall>j < n.
           int_of_char (byteList ! (i * n + j)) = Some (grid ! (1 + i) ! (1 + j)))"
    by blast
qed

theorem create_marker_bits_grid_witness:
  "(1 :: nat) \<le> 2 \<and> length ''1011'' = 2 * 2 \<and>
   (\<exists>grid. create_marker_bits 2 ''1011'' = Inr grid \<and> length grid = 4 \<and>
      grid ! 0 ! 1 = 0 \<and> grid ! 3 ! 2 = 0 \<and>
      grid ! 1 ! 1 = 1 \<and> grid ! 1 ! 2 = 0 \<and> grid ! 2 ! 1 = 1 \<and> grid ! 2 ! 2 = 1)"
proof -
  have "\<forall>c\<in>set ''1011''. int_of_char c \<noteq> None" by (simp add: int_of_char_def)
  with create_marker_bits_grid[of 2 "''1011''"] obtain grid where
    run: "create_marker_bits 2 ''1011'' = Inr grid" and l: "length grid = 4" and
    ring: "\<forall>k < 4. grid ! 0 ! k = 0 \<and> grid ! 3 ! k = 0 \<and> grid ! k ! 0 = 0 \<and> grid ! k ! 3 = 0" and
    inner: "\<forall>i < 2. \<forall>j < 2. int_of_char (''1011'' ! (i * 2 + j)) = Some (grid ! (1 + i) ! (1 + j))"
    by auto
  from ring have "grid ! 0 ! 1 = 0" "grid ! 3 ! 2 = 0" by simp_all
  moreover from inner[rule_format, of 0 0] have "grid ! 1 ! 1 = 1" by (simp add: int_of_char_def numeral_2_eq_2)
  moreover from inner[rule_format, of 0 1] have "grid ! 1 ! 2 = 0" by (simp add: int_of_char_def numeral_2_eq_2)
  moreover from inner[rule_format, of 1 0] have "grid ! 2 ! 1 = 1" by (simp add: int_of_char_def numeral_2_eq_2)
  moreover from inner[rule_format, of 1 1] have "grid ! 2 ! 2 = 1" by (simp add: int_of_char_def numeral_2_eq_2)
  ultimately show ?thesis using run l by simp
qed

section \<open>The validation of the marker board\<close>

lemma charuco_too_large:
  "aruco_marker_size self > square_size self \<Longrightarrow>
   make_charuco_board load self = Inr (self\<lparr> stdout := stdout self @ [MarkerTooLarge] \<rparr>)"
  by (simp add: make_charuco_board_def)

lemma charuco_insufficient:
  "\<not> aruco_marker_size self > square_size self \<Longrightarrow> load = Inr d \<Longrightarrow> nmarkers d = Some nm \<Longrightarrow>
   nm < markers_needed self \<Longrightarrow>
   make_charuco_board load self = Inr (self\<lparr> stdout := stdout self @ [InsufficientMarkers] \<rparr>)"
  by (simp add: make_charuco_board_def)

lemma charuco_passed:
  assumes "\<not> aruco_marker_size self > square_size self" "load = Inr d" "nmarkers d = Some nm"
    "\<not> nm < markers_needed self" "make_charuco_board load self = Inr self'"
  shows "MarkerTooLarge \<notin> set (printed self self') \<and> InsufficientMarkers \<notin> set (printed self self')"
  using assms
  by (auto simp: make_charuco_board_def printed_def Let_def
        split: option.splits if_splits sum.splits prod.splits)

lemma charuco_not_too_large:
  assumes "\<not> aruco_marker_size self > square_size self" "make_charuco_board load self = Inr self'"
  shows "MarkerTooLarge \<notin> set (printed self self')"
  using assms
  by (auto simp: make_charuco_board_def printed_def Let_def
        split: option.splits if_splits sum.splits prod.splits)

lemma charuco_too_large_printed:
  "printed self (self\<lparr> stdout := stdout self @ [m] \<rparr>) = [m]"
  by (simp add: printed_def)


lemma int_trunc_nonneg: "0 \<le> v \<Longrightarrow> int_trunc v = \<lfloor>v\<rfloor>"
  by (simp add: int_trunc_def)

lemma bits_one: "create_marker_bits 1 ''1'' = Inr [[0, 0, 0], [0, 1, 0], [0, 0, 0]]"
  by (simp add: create_marker_bits_def range0_def int_of_char_def numeral_3_eq_3)

lemma markers_needed_equal: "markers_needed board_equal = 2"
proof -
  have "real_of_int (cols board_equal * rows board_equal) / 2 = 2"
    by (simp add: board_equal_def init_def)
  moreover have "rd 2 = 2" by (simp add: rd_eval)
  ultimately have "markers_needed board_equal = int_trunc 2"
    by (simp only: markers_needed_def)
  then show ?thesis by (simp add: int_trunc_nonneg)
qed

lemma charuco_equal_run:
  "\<exists>grp. make_charuco_board (Inr (dict_ones 2)) board_equal =
     Inr (board_equal\<lparr> g := grp, stdout := [NarrowBorder 0 6] \<rparr>) \<and> length grp = 6"
  by (simp add: make_charuco_board_def markers_needed_equal dict_ones_def)
     (simp add: int_trunc_nonneg board_equal_def init_def
        range0_def upt_conv_Cons charuco_cell_def bits_one Let_def)


lemma markers_needed_5x5: "markers_needed board_5x5 = 12"
proof -
  have "real_of_int (cols board_5x5 * rows board_5x5) / 2 = 25 / 2"
    by (simp add: board_5x5_def init_def)
  moreover have "rd (25 / 2) = 25 / 2" by (simp add: rd_eval)
  ultimately have "markers_needed board_5x5 = int_trunc (25 / 2)"
    by (simp only: markers_needed_def)
  then show ?thesis by (simp add: int_trunc_nonneg)
qed

lemma charuco_5x5_run:
  "\<exists>grp. make_charuco_board (Inr (dict_ones 12)) board_5x5 =
     Inr (board_5x5\<lparr> g := grp, stdout := [] \<rparr>) \<and> length grp = 37"
  by (simp add: make_charuco_board_def markers_needed_5x5 dict_ones_def)
     (simp add: board_5x5_def init_def
        range0_def upt_conv_Cons charuco_cell_def bits_one Let_def)


lemma charuco_failed_state:
  assumes "make_charuco_board load self = Inr self'"
    "MarkerTooLarge \<in> set (printed self self') \<or> InsufficientMarkers \<in> set (printed self self')"
  shows "g self' = g self \<and> dwg self' = dwg self"
  using assms
  by (auto simp: make_charuco_board_def printed_def Let_def
        split: option.splits if_splits sum.splits prod.splits)

lemma charuco_5x5_rejected:
  "make_charuco_board (Inr (dict_ones 11)) board_5x5 =
     Inr (board_5x5\<lparr> stdout := stdout board_5x5 @ [InsufficientMarkers] \<rparr>)"
  by (rule charuco_insufficient[where d = "dict_ones 11" and nm = 11])
     (simp_all add: markers_needed_5x5 dict_ones_def, simp add: board_5x5_def init_def)

text \<open>
  C3 (amended).  \<open>make_charuco_board\<close> reports the marker-too-large error, and returns
  having done nothing else, exactly when aruco_marker_size is strictly greater than
  square_size; this check comes first, before the dictionary is read.  Every
  aruco_marker_size at most square_size passes it, the size equal to square_size
  included: on a 2 x 2 board with markers and squares of 20 the board is generated (6
  primitives), with only the narrow-border warning printed.
\<close>

theorem charuco_marker_size_check:
  "(aruco_marker_size self > square_size self \<longrightarrow>
      make_charuco_board load self = Inr (self\<lparr> stdout := stdout self @ [MarkerTooLarge] \<rparr>))
   \<and> (aruco_marker_size self \<le> square_size self \<longrightarrow>
        (\<forall>self'. make_charuco_board load self = Inr self' \<longrightarrow>
           MarkerTooLarge \<notin> set (printed self self')))
   \<and> ((\<exists>self'. make_charuco_board load self = Inr self' \<and> MarkerTooLarge \<in> set (printed self self'))
        \<longleftrightarrow> aruco_marker_size self > square_size self)
   \<and> aruco_marker_size board_equal = square_size board_equal
   \<and> (\<exists>grp. make_charuco_board (Inr (dict_ones 2)) board_equal =
          Inr (board_equal\<lparr> g := grp, stdout := [NarrowBorder 0 6] \<rparr>) \<and> length grp = 6)"
proof (intro conjI impI allI)
  assume "aruco_marker_size self > square_size self"
  then show "make_charuco_board load self = Inr (self\<lparr> stdout := stdout self @ [MarkerTooLarge] \<rparr>)"
    by (rule charuco_too_large)
next
  fix self'
  assume "aruco_marker_size self \<le> square_size self" "make_charuco_board load self = Inr self'"
  then show "MarkerTooLarge \<notin> set (printed self self')"
    using charuco_not_too_large[of self load self'] by simp
next
  show "(\<exists>self'. make_charuco_board load self = Inr self' \<and> MarkerTooLarge \<in> set (printed self self'))
        \<longleftrightarrow> aruco_marker_size self > square_size self"
  proof
    assume "\<exists>self'. make_charuco_board load self = Inr self' \<and> MarkerTooLarge \<in> set (printed self self')"
    then show "aruco_marker_size self > square_size self"
      using charuco_not_too_large[of self load] by blast
  next
    assume "aruco_marker_size self > square_size self"
    from charuco_too_large[OF this, of load]
    show "\<exists>self'. make_charuco_board load self = Inr self' \<and> MarkerTooLarge \<in> set (printed self self')"
      by (simp add: charuco_too_large_printed)
  qed
next
  show "aruco_marker_size board_equal = square_size board_equal"
    by (simp add: board_equal_def init_def)
next
  show "\<exists>grp. make_charuco_board (Inr (dict_ones 2)) board_equal =
          Inr (board_equal\<lparr> g := grp, stdout := [NarrowBorder 0 6] \<rparr>) \<and> length grp = 6"
    by (rule charuco_equal_run)
qed

theorem charuco_marker_size_check_witness:
  "aruco_marker_size board_too_large > square_size board_too_large \<and>
   make_charuco_board (Inl OSError) board_too_large =
     Inr (board_too_large\<lparr> stdout := stdout board_too_large @ [MarkerTooLarge] \<rparr>) \<and>
   aruco_marker_size board_equal \<le> square_size board_equal \<and>
   (\<exists>self'. make_charuco_board (Inr (dict_ones 2)) board_equal = Inr self' \<and>
      MarkerTooLarge \<notin> set (printed board_equal self'))"
proof -
  have a: "aruco_marker_size board_too_large > square_size board_too_large"
    by (simp add: board_too_large_def init_def)
  have b: "aruco_marker_size board_equal \<le> square_size board_equal"
    by (simp add: board_equal_def init_def)
  from charuco_equal_run obtain self' where
    run: "make_charuco_board (Inr (dict_ones 2)) board_equal = Inr self'" by blast
  from charuco_marker_size_check[of board_too_large "Inl OSError"] a
  have 1: "make_charuco_board (Inl OSError) board_too_large =
     Inr (board_too_large\<lparr> stdout := stdout board_too_large @ [MarkerTooLarge] \<rparr>)"
    by blast
  from charuco_marker_size_check[of board_equal "Inr (dict_ones 2)"] b run
  have 2: "MarkerTooLarge \<notin> set (printed board_equal self')" by blast
  from a b 1 2 run show ?thesis by blast
qed

text \<open>
  With aruco_marker_size equal to square_size the generation does not fail with the
  marker-too-large error, and it produces primitives.
\<close>

theorem charuco_equal_size_counterexample:
  "aruco_marker_size board_equal = square_size board_equal \<and>
   (case make_charuco_board (Inr (dict_ones 2)) board_equal of
      Inl e \<Rightarrow> False
    | Inr self' \<Rightarrow> MarkerTooLarge \<notin> set (stdout self') \<and> length (g self') = 6)"
proof -
  from charuco_equal_run obtain grp where
    "make_charuco_board (Inr (dict_ones 2)) board_equal =
       Inr (board_equal\<lparr> g := grp, stdout := [NarrowBorder 0 6] \<rparr>)" "length grp = 6"
    by blast
  then show ?thesis by (simp add: board_equal_def init_def)
qed

text \<open>
  C8.  When \<open>make_charuco_board\<close> fails either validation check (marker too large, or
  too few markers in the dictionary), it returns before the loop over the grid: the group
  and the drawing are exactly as they were before the call, and only the error line has
  been printed.
\<close>

theorem charuco_validation_emits_nothing:
  "(aruco_marker_size self > square_size self \<longrightarrow>
      (\<exists>self'. make_charuco_board load self = Inr self' \<and> printed self self' = [MarkerTooLarge] \<and>
         g self' = g self \<and> dwg self' = dwg self))
   \<and> (\<not> aruco_marker_size self > square_size self \<and> load = Inr d \<and> nmarkers d = Some nm \<and>
        nm < markers_needed self \<longrightarrow>
      (\<exists>self'. make_charuco_board load self = Inr self' \<and> printed self self' = [InsufficientMarkers] \<and>
         g self' = g self \<and> dwg self' = dwg self))
   \<and> (\<forall>self'. make_charuco_board load self = Inr self' \<and>
          (MarkerTooLarge \<in> set (printed self self') \<or> InsufficientMarkers \<in> set (printed self self')) \<longrightarrow>
          g self' = g self \<and> dwg self' = dwg self)"
proof (intro conjI impI allI)
  assume "aruco_marker_size self > square_size self"
  from charuco_too_large[OF this, of load]
  show "\<exists>self'. make_charuco_board load self = Inr self' \<and> printed self self' = [MarkerTooLarge] \<and>
         g self' = g self \<and> dwg self' = dwg self"
    by (simp add: charuco_too_large_printed)
next
  assume "\<not> aruco_marker_size self > square_size self \<and> load = Inr d \<and> nmarkers d = Some nm \<and>
        nm < markers_needed self"
  then have "make_charuco_board load self = Inr (self\<lparr> stdout := stdout self @ [InsufficientMarkers] \<rparr>)"
    using charuco_insufficient[of self load d nm] by blast
  then show "\<exists>self'. make_charuco_board load self = Inr self' \<and> printed self self' = [InsufficientMarkers] \<and>
         g self' = g self \<and> dwg self' = dwg self"
    by (simp add: charuco_too_large_printed)
next
  fix self'
  assume h: "make_charuco_board load self = Inr self' \<and>
          (MarkerTooLarge \<in> set (printed self self') \<or> InsufficientMarkers \<in> set (printed self self'))"
  then show "g self' = g self" using charuco_failed_state[of load self self'] by blast
  from h show "dwg self' = dwg self" using charuco_failed_state[of load self self'] by blast
qed

theorem charuco_validation_emits_nothing_witness:
  "aruco_marker_size board_too_large > square_size board_too_large \<and>
   (\<exists>self'. make_charuco_board (Inl OSError) board_too_large = Inr self' \<and>
      printed board_too_large self' = [MarkerTooLarge] \<and> g self' = g board_too_large) \<and>
   \<not> aruco_marker_size board_5x5 > square_size board_5x5 \<and>
   nmarkers (dict_ones 11) = Some 11 \<and> 11 < markers_needed board_5x5 \<and>
   (\<exists>self'. make_charuco_board (Inr (dict_ones 11)) board_5x5 = Inr self' \<and>
      printed board_5x5 self' = [InsufficientMarkers] \<and> g self' = g board_5x5)"
proof -
  have a: "aruco_marker_size board_too_large > square_size board_too_large"
    by (simp add: board_too_large_def init_def)
  have b: "\<not> aruco_marker_size board_5x5 > square_size board_5x5"
    by (simp add: board_5x5_def init_def)
  have c: "nmarkers (dict_ones 11) = Some 11" by (simp add: dict_ones_def)
  have d: "11 < markers_needed board_5x5" by (simp add: markers_needed_5x5)
  from charuco_validation_emits_nothing[of board_too_large "Inl OSError"] a
  have 1: "\<exists>self'. make_charuco_board (Inl OSError) board_too_large = Inr self' \<and>
      printed board_too_large self' = [MarkerTooLarge] \<and> g self' = g board_too_large"
    by blast
  from charuco_validation_emits_nothing[of board_5x5 "Inr (dict_ones 11)" "dict_ones 11" 11] b c d
  have 2: "\<exists>self'. make_charuco_board (Inr (dict_ones 11)) board_5x5 = Inr self' \<and>
      printed board_5x5 self' = [InsufficientMarkers] \<and> g self' = g board_5x5"
    by blast
  from a b c d 1 2 show ?thesis by blast
qed

section \<open>The number of markers a board takes\<close>

text \<open>
  The marker cells are those whose column and row differ in parity.  Before cell
  \<open>(x, y)\<close> of a board of \<open>c\<close> columns, in the order of the loops, there are
  \<open>c * y div 2 + (x + y mod 2) div 2\<close> of them, and \<open>c * r div 2\<close> on the whole board.
\<close>

lemma half_linear:
  fixes q c :: nat
  shows "(2 * q + c) div 2 = q + c div 2"
  by simp

lemma row_count_step:
  fixes c y :: nat
  shows "(c * y) div 2 + (c + y mod 2) div 2 = (c * Suc y) div 2"
proof (cases "even y")
  case True
  then obtain k where k: "y = 2 * k" by (auto elim: evenE)
  have "c * y = 2 * (c * k)" by (simp add: k)
  moreover have "c * Suc y = 2 * (c * k) + c" by (simp add: k)
  ultimately show ?thesis using True by (simp add: k)
next
  case False
  then obtain k where k: "y = 2 * k + 1" by (auto elim: oddE)
  have a: "c * y = 2 * (c * k) + c" by (simp add: k algebra_simps)
  have b: "c * Suc y = 2 * (c * k + c)" by (simp add: k algebra_simps)
  have "y mod 2 = 1" using False by (simp add: odd_iff_mod_2_eq_one)
  then show ?thesis unfolding a b by (simp add: half_linear)
qed

lemma cell_count_filled:
  fixes x y :: nat
  assumes "x mod 2 = y mod 2"
  shows "(Suc x + y mod 2) div 2 = (x + y mod 2) div 2"
proof (cases "even y")
  case True
  with assms have "even x" "y mod 2 = 0" by (simp_all add: even_iff_mod_2_eq_zero)
  then show ?thesis by simp
next
  case False
  with assms have "odd x" "y mod 2 = 1" by (simp_all add: odd_iff_mod_2_eq_one)
  then show ?thesis by simp
qed

lemma cell_count_marker:
  fixes x y :: nat
  assumes "x mod 2 \<noteq> y mod 2"
  shows "(Suc x + y mod 2) div 2 = Suc ((x + y mod 2) div 2)"
proof (cases "even y")
  case True
  then have y: "y mod 2 = 0" by (simp add: even_iff_mod_2_eq_zero)
  with assms have "odd x" by (simp add: even_iff_mod_2_eq_zero)
  with y show ?thesis by simp
next
  case False
  then have y: "y mod 2 = 1" by (simp add: odd_iff_mod_2_eq_one)
  with assms have "x mod 2 \<noteq> 1" by simp
  then have "even x" using odd_iff_mod_2_eq_one[of x] by blast
  with y show ?thesis by simp
qed

lemma int_parity: "(int x mod 2 = int y mod 2) \<longleftrightarrow> (x mod 2 = y mod 2)"
proof -
  have "int x mod 2 = int (x mod 2)" "int y mod 2 = int (y mod 2)"
    by (simp_all add: zmod_int)
  then show ?thesis by simp
qed
lemma marker_id_bound:
  fixes c r x y :: nat
  assumes "x < c" "y < r" "x mod 2 \<noteq> y mod 2"
  shows "(c * y) div 2 + (x + y mod 2) div 2 < (c * r) div 2"
proof -
  from assms(3) have "Suc ((x + y mod 2) div 2) = (Suc x + y mod 2) div 2"
    by (rule cell_count_marker[symmetric])
  also from assms(1) have "\<dots> \<le> (c + y mod 2) div 2"
    by (intro div_le_mono) simp
  finally have "Suc ((c * y) div 2 + (x + y mod 2) div 2) \<le> (c * Suc y) div 2"
    using row_count_step[of c y] by simp
  also from assms(2) have "\<dots> \<le> (c * r) div 2"
    by (intro div_le_mono mult_le_mono2) simp
  finally show ?thesis by simp
qed

lemma markers_needed_div:
  assumes "0 \<le> cols self * rows self" "cols self * rows self \<le> 2 ^ 53"
  shows "markers_needed self = (cols self * rows self) div 2"
proof -
  have "\<lfloor>real_of_int (cols self * rows self) / real_of_int 2\<rfloor> = (cols self * rows self) div 2"
    by (rule floor_divide_of_int_eq)
  moreover from assms(1) have "0 \<le> real_of_int (cols self * rows self) / 2"
    by (simp only: zero_le_divide_iff of_int_0_le_iff) simp
  moreover note e = rd_half_exact[OF assms]
  ultimately show ?thesis unfolding markers_needed_def int_trunc_def e by simp
qed

lemma markers_needed_wide: "markers_needed board_wide = 9007199254740996"
proof -
  have "real_of_int (cols board_wide * rows board_wide) / 2 = 18014398509481990 / 2"
    by (simp add: board_wide_def init_def)
  moreover have "rd (18014398509481990 / 2) = 9007199254740996" by (simp add: rd_eval)
  ultimately have "markers_needed board_wide = int_trunc 9007199254740996"
    by (simp only: markers_needed_def)
  then show ?thesis by (simp add: int_trunc_nonneg)
qed

lemma create_marker_bits_nonempty:
  assumes "0 \<le> msb" "nat (msb * msb) \<le> length bl"
    "\<forall>k < nat (msb * msb). int_of_char (bl ! k) \<noteq> None"
  shows "\<exists>grid. create_marker_bits msb bl = Inr grid \<and> grid \<noteq> []"
proof -
  from assms(1) obtain n where n: "msb = int n" by (metis nonneg_int_cases)
  have nn: "nat (msb * msb) = n * n" by (simp add: n nat_mult_distrib)
  from assms(2,3) have "n * n \<le> length bl" "\<forall>k < n * n. int_of_char (bl ! k) \<noteq> None"
    by (simp_all add: nn)
  from create_marker_bits_nat[OF this] obtain grid where
    "create_marker_bits msb bl = Inr grid" "length grid = n + 2"
    unfolding n by blast
  then show ?thesis by auto
qed

lemma wf_marker_bits:
  assumes "wf_marker d msb k" "0 \<le> msb"
  shows "\<exists>bl grid. marker d k = Some bl \<and> create_marker_bits msb bl = Inr grid \<and> grid \<noteq> []"
proof -
  from assms(1) obtain bl where bl: "marker d k = Some bl" "nat (msb * msb) \<le> length bl"
    "list_all (\<lambda>c. int_of_char c \<noteq> None) (take (nat (msb * msb)) bl)"
    by (auto simp: wf_marker_def split: option.splits)
  from bl(2,3) have "\<forall>i < nat (msb * msb). int_of_char (bl ! i) \<noteq> None"
    by (simp add: list_all_length)
  from create_marker_bits_nonempty[OF assms(2) bl(2) this] bl(1) show ?thesis by blast
qed


lemma fold_cond_append:
  "fold (\<lambda>y grp. if c y then grp @ [f y] else grp) ys grp =
     grp @ concat (map (\<lambda>y. if c y then [f y] else []) ys)"
  by (induction ys arbitrary: grp) simp_all

lemma fold_fold_cond_append:
  "fold (\<lambda>x. fold (\<lambda>y grp. if c x y then grp @ [f x y] else grp) ys) xs grp =
     grp @ concat (map (\<lambda>x. concat (map (\<lambda>y. if c x y then [f x y] else []) ys)) xs)"
  by (induction xs arbitrary: grp) (simp_all add: fold_cond_append)

lemma charuco_cell_filled_eq:
  assumes "x mod 2 = y mod 2"
  shows "charuco_cell self d msb side y x (m, grp) =
     Inr (m, grp @ [Rect (real_of_int x * square_size self +
                           (width self - real_of_int (cols self) * square_size self) / 2,
                         real_of_int y * square_size self +
                           (height self - real_of_int (rows self) * square_size self) / 2)
                        (square_size self, square_size self) ''black'' ''none'' None])"
  using assms by (simp add: charuco_cell_def Let_def)

lemma charuco_cell_marker_eq:
  assumes "x mod 2 \<noteq> y mod 2" "marker d m = Some bl" "create_marker_bits msb bl = Inr img"
    "img \<noteq> []"
  shows "charuco_cell self d msb side y x (m, grp) =
     Inr (Suc m, grp @
       Rect (real_of_int x * square_size self +
               (width self - real_of_int (cols self) * square_size self) / 2 +
               (square_size self - aruco_marker_size self) / 2,
             real_of_int y * square_size self +
               (height self - real_of_int (rows self) * square_size self) / 2 +
               (square_size self - aruco_marker_size self) / 2)
            (aruco_marker_size self, aruco_marker_size self) ''black'' ''none'' None #
       concat (map (\<lambda>x'. concat (map (\<lambda>y'.
           if img ! y' ! x' \<noteq> 0 then
             [Rect (real_of_int x * square_size self +
                      (width self - real_of_int (cols self) * square_size self) / 2 +
                      (square_size self - aruco_marker_size self) / 2 + real x' * side,
                    real_of_int y * square_size self +
                      (height self - real_of_int (rows self) * square_size self) / 2 +
                      (square_size self - aruco_marker_size self) / 2 + real y' * side)
                   (side, side) ''white'' ''white'' (Some (square_size self * 0.01))]
           else []) [0..<length img])) [0..<length (img ! 0)]))"
  using assms by (simp add: charuco_cell_def Let_def fold_fold_cond_append)

lemma marker_index_nat:
  "marker_index (int c) (int y) (int x) = (c * y) div 2 + (x + y mod 2) div 2"
proof -
  have "(int c * int y) div 2 = int ((c * y) div 2)" by (simp add: zdiv_int)
  moreover have "(int x + int y mod 2) div 2 = int ((x + y mod 2) div 2)"
    by (simp add: zdiv_int zmod_int)
  ultimately have "marker_index (int c) (int y) (int x) =
      nat (int ((c * y) div 2) + int ((x + y mod 2) div 2))"
    by (simp only: marker_index_def)
  then show ?thesis by (simp only: nat_int_add)
qed


lemma charuco_cell_step_filled:
  assumes "x mod 2 = y mod 2"
  shows "charuco_cell self d msb side y x (m, grp) = Inr (m, grp @ board_cell self d msb side y x)"
  using assms by (simp add: board_cell_def charuco_cell_filled_eq)

lemma charuco_cell_step_marker:
  assumes "x mod 2 \<noteq> y mod 2" "wf_marker d msb (marker_index (cols self) y x)" "0 \<le> msb"
  shows "charuco_cell self d msb side y x (marker_index (cols self) y x, grp) =
           Inr (Suc (marker_index (cols self) y x), grp @ board_cell self d msb side y x)"
proof -
  from wf_marker_bits[OF assms(2,3)] obtain bl img where
    m: "marker d (marker_index (cols self) y x) = Some bl"
       "create_marker_bits msb bl = Inr img" "img \<noteq> []"
    by blast
  note eq = charuco_cell_marker_eq[OF assms(1) m]
  show ?thesis
    by (simp only: board_cell_def eq[of self side grp] eq[of self side "[]"])
       simp
qed

lemma range0_snoc: "range0 (1 + int n) = range0 (int n) @ [int n]"
proof -
  have "nat (1 + int n) = Suc n" by linarith
  then show ?thesis by (simp add: range0_def)
qed

lemma charuco_row_loop:
  fixes c r y :: nat
  assumes y: "y < r" and msb: "0 \<le> msb"
    and wf: "\<forall>k < (c * r) div 2. wf_marker d msb k"
    and c: "c = nat (cols self)"
    and start: "fst s = (c * y) div 2"
  shows "\<exists>s'. for_loop (range0 (int c)) (charuco_cell self d msb side (int y)) s = Inr s' \<and>
           fst s' = (c * Suc y) div 2 \<and>
           snd s' = snd s @ concat (map (board_cell self d msb side (int y)) (range0 (int c)))"
proof -
  let ?P = "\<lambda>x (st :: nat \<times> primitive list).
      fst st = (c * y) div 2 + (x + y mod 2) div 2 \<and>
      snd st = snd s @ concat (map (board_cell self d msb side (int y)) (range0 (int x)))"
  have "\<exists>s'. for_loop (range0 (int c)) (charuco_cell self d msb side (int y)) s = Inr s' \<and> ?P c s'"
  proof (rule for_loop_range_inv[where P = ?P])
    from start show "?P 0 s" by (simp add: range0_def)
  next
    fix x and st :: "nat \<times> primitive list"
    assume x: "x < c" and P: "?P x st"
    obtain m grp where st: "st = (m, grp)" by (cases st)
    with P have m: "m = (c * y) div 2 + (x + y mod 2) div 2"
      and grp: "grp = snd s @ concat (map (board_cell self d msb side (int y)) (range0 (int x)))"
      by simp_all
    from x c have cols: "cols self = int c" by simp
    have idx: "marker_index (cols self) (int y) (int x) = m"
      by (simp only: cols marker_index_nat m)
    show "\<exists>s'. charuco_cell self d msb side (int y) (int x) st = Inr s' \<and> ?P (Suc x) s'"
    proof (cases "x mod 2 = y mod 2")
      case True
      then have "int x mod 2 = int y mod 2" by (simp add: int_parity)
      from charuco_cell_step_filled[OF this, of self d msb side m grp]
      have "charuco_cell self d msb side (int y) (int x) st =
          Inr (m, grp @ board_cell self d msb side (int y) (int x))"
        by (simp only: st)
      moreover from cell_count_filled[OF True]
      have "?P (Suc x) (m, grp @ board_cell self d msb side (int y) (int x))"
        by (simp add: m grp range0_snoc)
      ultimately show ?thesis by blast
    next
      case False
      then have par: "int x mod 2 \<noteq> int y mod 2" by (simp add: int_parity)
      from marker_id_bound[OF x y False] have "m < (c * r) div 2" by (simp add: m)
      with wf have "wf_marker d msb (marker_index (cols self) (int y) (int x))"
        by (simp only: idx)
      from charuco_cell_step_marker[OF par this msb, of side grp]
      have "charuco_cell self d msb side (int y) (int x) st =
          Inr (Suc m, grp @ board_cell self d msb side (int y) (int x))"
        by (simp only: st idx)
      moreover from cell_count_marker[OF False]
      have "?P (Suc x) (Suc m, grp @ board_cell self d msb side (int y) (int x))"
        by (simp add: m grp range0_snoc)
      ultimately show ?thesis by blast
    qed
  qed
  then show ?thesis by (simp only: row_count_step)
qed

lemma charuco_grid_loop:
  fixes c r :: nat
  assumes msb: "0 \<le> msb"
    and wf: "\<forall>k < (c * r) div 2. wf_marker d msb k"
    and c: "c = nat (cols self)"
  shows "\<exists>m. for_loop (range0 (int r))
           (\<lambda>y. for_loop (range0 (int c)) (charuco_cell self d msb side y)) (0, grp) =
         Inr (m, grp @ concat (map (\<lambda>y. concat (map (board_cell self d msb side y) (range0 (int c))))
                  (range0 (int r))))"
proof -
  let ?Q = "\<lambda>y (s :: nat \<times> primitive list). fst s = (c * y) div 2 \<and>
      snd s = grp @ concat (map (\<lambda>y. concat (map (board_cell self d msb side y) (range0 (int c))))
                  (range0 (int y)))"
  have "\<exists>s'. for_loop (range0 (int r))
           (\<lambda>y. for_loop (range0 (int c)) (charuco_cell self d msb side y)) (0, grp) = Inr s' \<and> ?Q r s'"
  proof (rule for_loop_range_inv[where P = ?Q])
    show "?Q 0 (0, grp)" by (simp add: range0_def)
  next
    fix y and s :: "nat \<times> primitive list"
    assume y: "y < r" and Q: "?Q y s"
    from Q have start: "fst s = (c * y) div 2" by blast
    from charuco_row_loop[OF y msb wf c start, of side] obtain s' where
      run: "for_loop (range0 (int c)) (charuco_cell self d msb side (int y)) s = Inr s'" and
      f: "fst s' = (c * Suc y) div 2" and
      g: "snd s' = snd s @ concat (map (board_cell self d msb side (int y)) (range0 (int c)))"
      by blast
    from Q g have "snd s' = grp @ concat (map (\<lambda>y. concat (map (board_cell self d msb side y) (range0 (int c))))
                  (range0 (int (Suc y))))"
      by (simp add: range0_snoc)
    with run f
    show "\<exists>s'. for_loop (range0 (int c)) (charuco_cell self d msb side (int y)) s = Inr s' \<and> ?Q (Suc y) s'"
      by blast
  qed
  then obtain s' where "for_loop (range0 (int r))
           (\<lambda>y. for_loop (range0 (int c)) (charuco_cell self d msb side y)) (0, grp) = Inr s'"
    "snd s' = grp @ concat (map (\<lambda>y. concat (map (board_cell self d msb side y) (range0 (int c))))
                  (range0 (int r)))"
    by blast
  then show ?thesis by (cases s') auto
qed


lemma concat_rows_product:
  "concat (map (\<lambda>y. concat (map (f y) xs)) ys) =
     concat (map (\<lambda>(y, x). f y x) (List.product ys xs))"
  by (induction ys) (simp_all add: comp_def)

lemma row_marker_indices:
  fixes c y n :: nat
  shows "map (marker_index (int c) (int y)) (filter (\<lambda>x. x mod 2 \<noteq> int y mod 2) (range0 (int n))) =
           [(c * y) div 2 ..< (c * y) div 2 + (n + y mod 2) div 2]"
proof (induction n)
  case 0
  have "(y mod 2) div 2 = 0" by simp
  then show ?case by (simp add: range0_def)
next
  case (Suc n)
  show ?case
  proof (cases "n mod 2 = y mod 2")
    case True
    then have "int n mod 2 = int y mod 2" by (simp add: int_parity)
    with Suc cell_count_filled[OF True] show ?thesis
      by (simp add: range0_snoc)
  next
    case False
    then have "int n mod 2 \<noteq> int y mod 2" by (simp add: int_parity)
    with Suc cell_count_marker[OF False] show ?thesis
      by (simp add: range0_snoc marker_index_nat)
  qed
qed

lemma board_marker_indices_nat:
  fixes c r :: nat
  shows "concat (map (\<lambda>y. map (marker_index (int c) y)
            (filter (\<lambda>x. x mod 2 \<noteq> y mod 2) (range0 (int c)))) (range0 (int r))) =
         [0 ..< (c * r) div 2]"
proof (induction r)
  case 0
  then show ?case by (simp add: range0_def)
next
  case (Suc r)
  have mono: "(c * r) div 2 \<le> (c * Suc r) div 2"
    by (intro div_le_mono) simp
  have "[(c * r) div 2 ..< (c * r) div 2 + (c + r mod 2) div 2] =
        [(c * r) div 2 ..< (c * Suc r) div 2]"
    by (simp only: row_count_step)
  obtain k where k: "(c * Suc r) div 2 = (c * r) div 2 + k"
    using mono le_Suc_ex by blast
  have "[0 ..< (c * r) div 2 + k] = [0 ..< (c * r) div 2] @ [(c * r) div 2 ..< (c * r) div 2 + k]"
    by (rule upt_add_eq_append) simp
  with Suc row_marker_indices[of c r c] k row_count_step[of c r] show ?case
    by (simp add: range0_snoc del: upt_Suc)
qed


lemma range0_nat: "range0 n = range0 (int (nat n))"
  by (simp add: range0_def)

lemma marker_cells_indices:
  "map (\<lambda>(y, x). marker_index (cols self) y x)
       (filter (\<lambda>(y, x). x mod 2 \<noteq> y mod 2)
          (List.product (range0 (rows self)) (range0 (cols self)))) =
     [0 ..< (nat (cols self) * nat (rows self)) div 2]"
proof (cases "0 \<le> cols self")
  case True
  define c r where "c = nat (cols self)" and "r = nat (rows self)"
  from True have cols: "cols self = int c" by (simp add: c_def)
  have rows: "range0 (rows self) = range0 (int r)" unfolding r_def by (rule range0_nat)
  have "map (\<lambda>(y, x). marker_index (int c) y x)
       (filter (\<lambda>(y, x). x mod 2 \<noteq> y mod 2) (List.product (range0 (int r)) (range0 (int c)))) =
     concat (map (\<lambda>y. map (marker_index (int c) y)
            (filter (\<lambda>x. x mod 2 \<noteq> y mod 2) (range0 (int c)))) (range0 (int r)))"
    by (simp add: product_concat_map filter_concat map_concat filter_map comp_def)
  then show ?thesis
    by (simp only: cols rows board_marker_indices_nat c_def[symmetric] r_def[symmetric] nat_int)
next
  case False
  then have "range0 (cols self) = []" "nat (cols self) = 0" by (simp_all add: range0_def)
  moreover have "List.product ys [] = []" for ys :: "int list"
    by (induction ys) simp_all
  ultimately show ?thesis by simp
qed

lemma marker_cells_count:
  "length (filter (\<lambda>(y, x). x mod 2 \<noteq> y mod 2)
          (List.product (range0 (rows self)) (range0 (cols self)))) =
     (nat (cols self) * nat (rows self)) div 2"
proof -
  have "length (map (\<lambda>(y, x). marker_index (cols self) y x)
       (filter (\<lambda>(y, x). x mod 2 \<noteq> y mod 2)
          (List.product (range0 (rows self)) (range0 (cols self))))) =
     length [0 ..< (nat (cols self) * nat (rows self)) div 2]"
    by (simp only: marker_cells_indices)
  then show ?thesis by simp
qed

lemma board_cell_filled:
  assumes "x mod 2 = y mod 2"
  shows "board_cell self d msb side y x =
     [Rect (real_of_int x * square_size self +
              (width self - real_of_int (cols self) * square_size self) / 2,
            real_of_int y * square_size self +
              (height self - real_of_int (rows self) * square_size self) / 2)
           (square_size self, square_size self) ''black'' ''none'' None]"
  using assms by (simp add: board_cell_def charuco_cell_filled_eq)

lemma board_cell_marker:
  assumes "x mod 2 \<noteq> y mod 2" "wf_marker d msb (marker_index (cols self) y x)" "0 \<le> msb"
  shows "\<exists>bl img. marker d (marker_index (cols self) y x) = Some bl \<and>
     create_marker_bits msb bl = Inr img \<and>
     board_cell self d msb side y x =
       Rect (real_of_int x * square_size self +
               (width self - real_of_int (cols self) * square_size self) / 2 +
               (square_size self - aruco_marker_size self) / 2,
             real_of_int y * square_size self +
               (height self - real_of_int (rows self) * square_size self) / 2 +
               (square_size self - aruco_marker_size self) / 2)
            (aruco_marker_size self, aruco_marker_size self) ''black'' ''none'' None #
       concat (map (\<lambda>x'. concat (map (\<lambda>y'.
           if img ! y' ! x' \<noteq> 0 then
             [Rect (real_of_int x * square_size self +
                      (width self - real_of_int (cols self) * square_size self) / 2 +
                      (square_size self - aruco_marker_size self) / 2 + real x' * side,
                    real_of_int y * square_size self +
                      (height self - real_of_int (rows self) * square_size self) / 2 +
                      (square_size self - aruco_marker_size self) / 2 + real y' * side)
                   (side, side) ''white'' ''white'' (Some (square_size self * 0.01))]
           else []) [0..<length img])) [0..<length (img ! 0)])"
proof -
  from wf_marker_bits[OF assms(2,3)] obtain bl img where
    m: "marker d (marker_index (cols self) y x) = Some bl"
       "create_marker_bits msb bl = Inr img" "img \<noteq> []"
    by blast
  note eq = charuco_cell_marker_eq[OF assms(1) m, of self side "[]"]
  have "board_cell self d msb side y x =
       Rect (real_of_int x * square_size self +
               (width self - real_of_int (cols self) * square_size self) / 2 +
               (square_size self - aruco_marker_size self) / 2,
             real_of_int y * square_size self +
               (height self - real_of_int (rows self) * square_size self) / 2 +
               (square_size self - aruco_marker_size self) / 2)
            (aruco_marker_size self, aruco_marker_size self) ''black'' ''none'' None #
       concat (map (\<lambda>x'. concat (map (\<lambda>y'.
           if img ! y' ! x' \<noteq> 0 then
             [Rect (real_of_int x * square_size self +
                      (width self - real_of_int (cols self) * square_size self) / 2 +
                      (square_size self - aruco_marker_size self) / 2 + real x' * side,
                    real_of_int y * square_size self +
                      (height self - real_of_int (rows self) * square_size self) / 2 +
                      (square_size self - aruco_marker_size self) / 2 + real y' * side)
                   (side, side) ''white'' ''white'' (Some (square_size self * 0.01))]
           else []) [0..<length img])) [0..<length (img ! 0)])"
    by (simp only: board_cell_def eq) simp
  with m(1,2) show ?thesis by blast
qed

lemma charuco_succeeds:
  assumes size: "\<not> aruco_marker_size self > square_size self"
    and load: "load = Inr d"
    and nm: "nmarkers d = Some nm" "\<not> nm < markers_needed self"
    and msb: "markersize d = Some msb" "0 \<le> msb"
    and wf: "\<forall>k < (nat (cols self) * nat (rows self)) div 2. wf_marker d msb k"
  shows "\<exists>self'. make_charuco_board load self = Inr self' \<and>
     g self' = g self @ concat (map (\<lambda>(y, x).
         board_cell self d msb (aruco_marker_size self / real_of_int (msb + 2)) y x)
       (List.product (range0 (rows self)) (range0 (cols self)))) \<and>
     dwg self' = dwg self"
proof -
  define c r where "c = nat (cols self)" and "r = nat (rows self)"
  define side where "side = aruco_marker_size self / real_of_int (msb + 2)"
  from wf have wf': "\<forall>k < (c * r) div 2. wf_marker d msb k" by (simp add: c_def r_def)
  from charuco_grid_loop[OF msb(2) wf' c_def, of side "g self"]
  obtain m where "for_loop (range0 (int r))
           (\<lambda>y. for_loop (range0 (int c)) (charuco_cell self d msb side y)) (0, g self) =
         Inr (m, g self @ concat (map (\<lambda>y. concat (map (board_cell self d msb side y) (range0 (int c))))
                  (range0 (int r))))"
    by blast
  then have loop: "for_loop (range0 (rows self))
           (\<lambda>y. for_loop (range0 (cols self)) (charuco_cell self d msb side y)) (0, g self) =
         Inr (m, g self @ concat (map (\<lambda>(y, x). board_cell self d msb side y x)
                  (List.product (range0 (rows self)) (range0 (cols self)))))"
    unfolding c_def r_def range0_nat[symmetric] concat_rows_product .
  from msb(2) have "msb + 2 \<noteq> 0" by simp
  with loop size load nm msb(1) show ?thesis
    by (simp add: make_charuco_board_def Let_def side_def)
qed

lemma charuco_insufficient_iff:
  assumes "\<not> aruco_marker_size self > square_size self" "load = Inr d" "nmarkers d = Some nm"
  shows "(\<exists>self'. make_charuco_board load self = Inr self' \<and>
            InsufficientMarkers \<in> set (printed self self')) \<longleftrightarrow> nm < markers_needed self"
proof
  assume "\<exists>self'. make_charuco_board load self = Inr self' \<and>
            InsufficientMarkers \<in> set (printed self self')"
  then show "nm < markers_needed self"
    using charuco_passed[OF assms] by blast
next
  assume "nm < markers_needed self"
  from charuco_insufficient[OF assms this]
  show "\<exists>self'. make_charuco_board load self = Inr self' \<and>
            InsufficientMarkers \<in> set (printed self self')"
    by (simp add: charuco_too_large_printed)
qed

lemma wf_dict_ones: "k < n \<Longrightarrow> wf_marker (dict_ones n) 1 k"
  by (simp add: wf_marker_def dict_ones_def int_of_char_def)

text \<open>
  C4 (amended).  Past the marker-size check, and for a product of columns and rows below
  \<open>2 ^ 1024\<close> in absolute value (beyond it the division of line 191 has no double to
  return), \<open>make_charuco_board\<close> prints the insufficient-markers error exactly when the
  dictionary's marker count is strictly less than \<open>int(columns * rows / 2)\<close>, the
  truncated double quotient of line 191.  For a product from 0 to \<open>2 ^ 53\<close> this is
  columns * rows div 2, rounded down; it is then the number of marker cells of the board
  (the cells with \<open>x mod 2 \<noteq> y mod 2\<close>), which take the markers 0, 1, 2, ... of the
  dictionary in the order of the loops.  With a count equal to the threshold or above, and
  a dictionary that holds a usable entry for each marker cell, the call returns without
  either validation error, the drawing untouched and the group extended, cell by cell in the
  order of the loops, by a black square for a cell with \<open>x mod 2 = y mod 2\<close> and by the
  marker (a black square of the marker size, then a white square for each set bit) for
  the others.  For the 5 x 5 board the threshold is 12: a dictionary of 12 markers is
  accepted and the board is emitted (37 primitives), one of 11 is rejected.  For a board of
  18014398509481990 columns and one row the threshold is 9007199254740996, one more than
  half the product: the quotient is rounded to a double.
\<close>

theorem charuco_marker_count_check:
  "(\<not> aruco_marker_size self > square_size self \<and> load = Inr d \<and> nmarkers d = Some nm \<and>
      \<bar>cols self * rows self\<bar> < 2 ^ 1024 \<longrightarrow>
      ((\<exists>self'. make_charuco_board load self = Inr self' \<and>
            InsufficientMarkers \<in> set (printed self self')) \<longleftrightarrow> nm < markers_needed self))
   \<and> (0 \<le> cols self * rows self \<and> cols self * rows self \<le> 2 ^ 53 \<longrightarrow>
        markers_needed self = (cols self * rows self) div 2)
   \<and> length (filter (\<lambda>(y, x). x mod 2 \<noteq> y mod 2)
          (List.product (range0 (rows self)) (range0 (cols self)))) =
       (nat (cols self) * nat (rows self)) div 2
   \<and> map (\<lambda>(y, x). marker_index (cols self) y x)
       (filter (\<lambda>(y, x). x mod 2 \<noteq> y mod 2)
          (List.product (range0 (rows self)) (range0 (cols self)))) =
       [0 ..< (nat (cols self) * nat (rows self)) div 2]
   \<and> (0 \<le> cols self \<and> 0 \<le> rows self \<and> cols self * rows self \<le> 2 ^ 53 \<longrightarrow>
        markers_needed self = int (length (filter (\<lambda>(y, x). x mod 2 \<noteq> y mod 2)
          (List.product (range0 (rows self)) (range0 (cols self))))))
   \<and> (\<not> aruco_marker_size self > square_size self \<and> load = Inr d \<and> nmarkers d = Some nm \<and>
        \<bar>cols self * rows self\<bar> < 2 ^ 1024 \<and>
        \<not> nm < markers_needed self \<and> markersize d = Some msb \<and> 0 \<le> msb \<and>
        (\<forall>k < (nat (cols self) * nat (rows self)) div 2. wf_marker d msb k) \<longrightarrow>
        (\<exists>self'. make_charuco_board load self = Inr self' \<and>
           MarkerTooLarge \<notin> set (printed self self') \<and>
           InsufficientMarkers \<notin> set (printed self self') \<and>
           dwg self' = dwg self \<and>
           g self' = g self @ concat (map (\<lambda>(y, x).
               board_cell self d msb (aruco_marker_size self / real_of_int (msb + 2)) y x)
             (List.product (range0 (rows self)) (range0 (cols self))))))
   \<and> (x mod 2 = y mod 2 \<longrightarrow>
        board_cell self d msb side y x =
          [Rect (real_of_int x * square_size self +
                   (width self - real_of_int (cols self) * square_size self) / 2,
                 real_of_int y * square_size self +
                   (height self - real_of_int (rows self) * square_size self) / 2)
                (square_size self, square_size self) ''black'' ''none'' None])
   \<and> (x mod 2 \<noteq> y mod 2 \<and> wf_marker d msb (marker_index (cols self) y x) \<and> 0 \<le> msb \<longrightarrow>
        (\<exists>bl img. marker d (marker_index (cols self) y x) = Some bl \<and>
          create_marker_bits msb bl = Inr img \<and>
          board_cell self d msb side y x =
            Rect (real_of_int x * square_size self +
                    (width self - real_of_int (cols self) * square_size self) / 2 +
                    (square_size self - aruco_marker_size self) / 2,
                  real_of_int y * square_size self +
                    (height self - real_of_int (rows self) * square_size self) / 2 +
                    (square_size self - aruco_marker_size self) / 2)
                 (aruco_marker_size self, aruco_marker_size self) ''black'' ''none'' None #
            concat (map (\<lambda>x'. concat (map (\<lambda>y'.
                if img ! y' ! x' \<noteq> 0 then
                  [Rect (real_of_int x * square_size self +
                           (width self - real_of_int (cols self) * square_size self) / 2 +
                           (square_size self - aruco_marker_size self) / 2 + real x' * side,
                         real_of_int y * square_size self +
                           (height self - real_of_int (rows self) * square_size self) / 2 +
                           (square_size self - aruco_marker_size self) / 2 + real y' * side)
                        (side, side) ''white'' ''white'' (Some (square_size self * 0.01))]
                else []) [0..<length img])) [0..<length (img ! 0)])))
   \<and> markers_needed board_5x5 = 12
   \<and> (\<exists>grp. make_charuco_board (Inr (dict_ones 12)) board_5x5 =
          Inr (board_5x5\<lparr> g := grp, stdout := [] \<rparr>) \<and> length grp = 37)
   \<and> make_charuco_board (Inr (dict_ones 11)) board_5x5 =
        Inr (board_5x5\<lparr> stdout := stdout board_5x5 @ [InsufficientMarkers] \<rparr>)
   \<and> markers_needed board_wide = 9007199254740996
   \<and> (cols board_wide * rows board_wide) div 2 = 9007199254740995"
proof -
  have a: "((\<exists>self'. make_charuco_board load self = Inr self' \<and>
            InsufficientMarkers \<in> set (printed self self')) \<longleftrightarrow> nm < markers_needed self)"
    if "\<not> aruco_marker_size self > square_size self \<and> load = Inr d \<and> nmarkers d = Some nm \<and>
      \<bar>cols self * rows self\<bar> < 2 ^ 1024"
    using that charuco_insufficient_iff[of self load d nm] by blast
  have b: "markers_needed self = (cols self * rows self) div 2"
    if "0 \<le> cols self * rows self \<and> cols self * rows self \<le> 2 ^ 53"
    using that markers_needed_div[of self] by blast
  have l: "length (filter (\<lambda>(y, x). x mod 2 \<noteq> y mod 2)
          (List.product (range0 (rows self)) (range0 (cols self)))) =
       (nat (cols self) * nat (rows self)) div 2"
    by (rule marker_cells_count)
  have m: "map (\<lambda>(y, x). marker_index (cols self) y x)
       (filter (\<lambda>(y, x). x mod 2 \<noteq> y mod 2)
          (List.product (range0 (rows self)) (range0 (cols self)))) =
       [0 ..< (nat (cols self) * nat (rows self)) div 2]"
    by (rule marker_cells_indices)
  have n: "markers_needed self = int (length (filter (\<lambda>(y, x). x mod 2 \<noteq> y mod 2)
          (List.product (range0 (rows self)) (range0 (cols self)))))"
    if h: "0 \<le> cols self \<and> 0 \<le> rows self \<and> cols self * rows self \<le> 2 ^ 53"
  proof -
    from h have "0 \<le> cols self * rows self" by simp
    with h have "markers_needed self = (cols self * rows self) div 2"
      using markers_needed_div[of self] by blast
    also from h have "\<dots> = int ((nat (cols self) * nat (rows self)) div 2)"
      by (simp add: zdiv_int nat_mult_distrib)
    finally show ?thesis by (simp only: marker_cells_count)
  qed
  have s: "(\<exists>self'. make_charuco_board load self = Inr self' \<and>
           MarkerTooLarge \<notin> set (printed self self') \<and>
           InsufficientMarkers \<notin> set (printed self self') \<and>
           dwg self' = dwg self \<and>
           g self' = g self @ concat (map (\<lambda>(y, x).
               board_cell self d msb (aruco_marker_size self / real_of_int (msb + 2)) y x)
             (List.product (range0 (rows self)) (range0 (cols self)))))"
    if h: "\<not> aruco_marker_size self > square_size self \<and> load = Inr d \<and> nmarkers d = Some nm \<and>
        \<bar>cols self * rows self\<bar> < 2 ^ 1024 \<and>
        \<not> nm < markers_needed self \<and> markersize d = Some msb \<and> 0 \<le> msb \<and>
        (\<forall>k < (nat (cols self) * nat (rows self)) div 2. wf_marker d msb k)"
  proof -
    from h obtain self' where run: "make_charuco_board load self = Inr self'"
      and grp: "g self' = g self @ concat (map (\<lambda>(y, x).
               board_cell self d msb (aruco_marker_size self / real_of_int (msb + 2)) y x)
             (List.product (range0 (rows self)) (range0 (cols self))))"
      and dwg: "dwg self' = dwg self"
      using charuco_succeeds[of self load d nm msb] by blast
    from h run have "MarkerTooLarge \<notin> set (printed self self') \<and>
        InsufficientMarkers \<notin> set (printed self self')"
      using charuco_passed[of self load d nm self'] by blast
    with run grp dwg show ?thesis by blast
  qed
  have f: "board_cell self d msb side y x =
          [Rect (real_of_int x * square_size self +
                   (width self - real_of_int (cols self) * square_size self) / 2,
                 real_of_int y * square_size self +
                   (height self - real_of_int (rows self) * square_size self) / 2)
                (square_size self, square_size self) ''black'' ''none'' None]"
    if "x mod 2 = y mod 2"
    using that by (rule board_cell_filled)
  have k: "(\<exists>bl img. marker d (marker_index (cols self) y x) = Some bl \<and>
          create_marker_bits msb bl = Inr img \<and>
          board_cell self d msb side y x =
            Rect (real_of_int x * square_size self +
                    (width self - real_of_int (cols self) * square_size self) / 2 +
                    (square_size self - aruco_marker_size self) / 2,
                  real_of_int y * square_size self +
                    (height self - real_of_int (rows self) * square_size self) / 2 +
                    (square_size self - aruco_marker_size self) / 2)
                 (aruco_marker_size self, aruco_marker_size self) ''black'' ''none'' None #
            concat (map (\<lambda>x'. concat (map (\<lambda>y'.
                if img ! y' ! x' \<noteq> 0 then
                  [Rect (real_of_int x * square_size self +
                           (width self - real_of_int (cols self) * square_size self) / 2 +
                           (square_size self - aruco_marker_size self) / 2 + real x' * side,
                         real_of_int y * square_size self +
                           (height self - real_of_int (rows self) * square_size self) / 2 +
                           (square_size self - aruco_marker_size self) / 2 + real y' * side)
                        (side, side) ''white'' ''white'' (Some (square_size self * 0.01))]
                else []) [0..<length img])) [0..<length (img ! 0)]))"
    if h: "x mod 2 \<noteq> y mod 2 \<and> wf_marker d msb (marker_index (cols self) y x) \<and> 0 \<le> msb"
  proof -
    from h have "x mod 2 \<noteq> y mod 2" "wf_marker d msb (marker_index (cols self) y x)" "0 \<le> msb"
      by simp_all
    then show ?thesis by (rule board_cell_marker)
  qed
  have c5: "(cols board_wide * rows board_wide) div 2 = 9007199254740995"
    by (simp add: board_wide_def init_def)
  from a b l m n s f k markers_needed_5x5 charuco_5x5_run charuco_5x5_rejected
    markers_needed_wide c5
  show ?thesis by (intro conjI impI)
qed

theorem charuco_marker_count_check_witness:
  "\<not> aruco_marker_size board_5x5 > square_size board_5x5 \<and>
   nmarkers (dict_ones 11) = Some 11 \<and> 11 < markers_needed board_5x5 \<and>
   \<bar>cols board_5x5 * rows board_5x5\<bar> < 2 ^ 1024 \<and>
   (\<exists>self'. make_charuco_board (Inr (dict_ones 11)) board_5x5 = Inr self' \<and>
      InsufficientMarkers \<in> set (printed board_5x5 self')) \<and>
   0 \<le> cols board_5x5 \<and> 0 \<le> rows board_5x5 \<and> cols board_5x5 * rows board_5x5 \<le> 2 ^ 53 \<and>
   markers_needed board_5x5 = (cols board_5x5 * rows board_5x5) div 2 \<and>
   markers_needed board_5x5 = int (length (filter (\<lambda>(y, x). x mod 2 \<noteq> y mod 2)
          (List.product (range0 (rows board_5x5)) (range0 (cols board_5x5))))) \<and>
   nmarkers (dict_ones 12) = Some 12 \<and> \<not> 12 < markers_needed board_5x5 \<and>
   markersize (dict_ones 12) = Some 1 \<and>
   (\<exists>self'. make_charuco_board (Inr (dict_ones 12)) board_5x5 = Inr self' \<and>
      MarkerTooLarge \<notin> set (printed board_5x5 self') \<and>
      InsufficientMarkers \<notin> set (printed board_5x5 self') \<and>
      dwg self' = dwg board_5x5 \<and>
      g self' = g board_5x5 @ concat (map (\<lambda>(y, x).
          board_cell board_5x5 (dict_ones 12) 1 (aruco_marker_size board_5x5 / real_of_int (1 + 2)) y x)
        (List.product (range0 (rows board_5x5)) (range0 (cols board_5x5))))) \<and>
   board_cell board_5x5 (dict_ones 12) 1 (10 / 3) 0 0 = [Rect (55, 197 / 2) (20, 20) ''black'' ''none'' None] \<and>
   wf_marker (dict_ones 12) 1 (marker_index (cols board_5x5) 0 1) \<and>
   board_cell board_5x5 (dict_ones 12) 1 (10 / 3) 0 1 =
     [Rect (80, 207 / 2) (10, 10) ''black'' ''none'' None,
      Rect (250 / 3, 641 / 6) (10 / 3, 10 / 3) ''white'' ''white'' (Some (1 / 5))]"
proof -
  have a: "\<not> aruco_marker_size board_5x5 > square_size board_5x5"
    by (simp add: board_5x5_def init_def)
  have b: "nmarkers (dict_ones 11) = Some 11" "nmarkers (dict_ones 12) = Some 12"
    "markersize (dict_ones 12) = Some 1"
    by (simp_all add: dict_ones_def)
  have c: "11 < markers_needed board_5x5" "\<not> 12 < markers_needed board_5x5"
    by (simp_all add: markers_needed_5x5)
  have p: "cols board_5x5 * rows board_5x5 = 25" "cols board_5x5 = 5" "rows board_5x5 = 5"
    by (simp_all add: board_5x5_def init_def)
  have r: "\<bar>cols board_5x5 * rows board_5x5\<bar> < 2 ^ 1024"
    unfolding p(1) by simp
  have d: "0 \<le> cols board_5x5" "0 \<le> rows board_5x5" "cols board_5x5 * rows board_5x5 \<le> 2 ^ 53"
    "0 \<le> cols board_5x5 * rows board_5x5"
    unfolding p by simp_all
  have e: "\<forall>k < (nat (cols board_5x5) * nat (rows board_5x5)) div 2. wf_marker (dict_ones 12) 1 k"
    unfolding p by (simp add: wf_dict_ones)
  have i: "marker_index (cols board_5x5) 0 1 = 0"
    unfolding p by (simp add: marker_index_def)
  have w: "wf_marker (dict_ones 12) 1 (marker_index (cols board_5x5) 0 1)"
    unfolding i by (simp add: wf_dict_ones)
  note t = charuco_marker_count_check[where self = board_5x5]
  have 1: "(\<exists>self'. make_charuco_board (Inr (dict_ones 11)) board_5x5 = Inr self' \<and>
      InsufficientMarkers \<in> set (printed board_5x5 self'))"
  proof -
    have "\<not> aruco_marker_size board_5x5 > square_size board_5x5 \<and>
        Inr (dict_ones 11) = Inr (dict_ones 11) \<and> nmarkers (dict_ones 11) = Some 11 \<and>
        \<bar>cols board_5x5 * rows board_5x5\<bar> < 2 ^ 1024"
      using a b(1) r by simp
    from t[where load = "Inr (dict_ones 11)" and d = "dict_ones 11" and nm = 11,
        THEN conjunct1, THEN mp, OF this] c(1)
    show ?thesis by (rule iffD2)
  qed
  have 2: "markers_needed board_5x5 = (cols board_5x5 * rows board_5x5) div 2"
  proof -
    from d(4,3) have "0 \<le> cols board_5x5 * rows board_5x5 \<and> cols board_5x5 * rows board_5x5 \<le> 2 ^ 53"
      by (rule conjI)
    from t[THEN conjunct2, THEN conjunct1, THEN mp, OF this] show ?thesis .
  qed
  have 3: "markers_needed board_5x5 = int (length (filter (\<lambda>(y, x). x mod 2 \<noteq> y mod 2)
          (List.product (range0 (rows board_5x5)) (range0 (cols board_5x5)))))"
  proof -
    from d(1,2,3) have "0 \<le> cols board_5x5 \<and> 0 \<le> rows board_5x5 \<and>
        cols board_5x5 * rows board_5x5 \<le> 2 ^ 53"
      by (intro conjI)
    from t[THEN conjunct2, THEN conjunct2, THEN conjunct2, THEN conjunct2, THEN conjunct1,
        THEN mp, OF this]
    show ?thesis .
  qed
  have 4: "(\<exists>self'. make_charuco_board (Inr (dict_ones 12)) board_5x5 = Inr self' \<and>
      MarkerTooLarge \<notin> set (printed board_5x5 self') \<and>
      InsufficientMarkers \<notin> set (printed board_5x5 self') \<and>
      dwg self' = dwg board_5x5 \<and>
      g self' = g board_5x5 @ concat (map (\<lambda>(y, x).
          board_cell board_5x5 (dict_ones 12) 1 (aruco_marker_size board_5x5 / real_of_int (1 + 2)) y x)
        (List.product (range0 (rows board_5x5)) (range0 (cols board_5x5)))))"
  proof -
    have "\<not> aruco_marker_size board_5x5 > square_size board_5x5 \<and>
        Inr (dict_ones 12) = Inr (dict_ones 12) \<and> nmarkers (dict_ones 12) = Some 12 \<and>
        \<bar>cols board_5x5 * rows board_5x5\<bar> < 2 ^ 1024 \<and>
        \<not> 12 < markers_needed board_5x5 \<and> markersize (dict_ones 12) = Some 1 \<and> (0 :: int) \<le> 1 \<and>
        (\<forall>k < (nat (cols board_5x5) * nat (rows board_5x5)) div 2. wf_marker (dict_ones 12) 1 k)"
      using a b(2,3) c(2) r e by simp
    from t[where load = "Inr (dict_ones 12)" and d = "dict_ones 12" and nm = 12 and msb = 1,
        THEN conjunct2, THEN conjunct2, THEN conjunct2, THEN conjunct2, THEN conjunct2,
        THEN conjunct1, THEN mp, OF this]
    show ?thesis .
  qed
  have 5: "board_cell board_5x5 (dict_ones 12) 1 (10 / 3) 0 0 = [Rect (55, 197 / 2) (20, 20) ''black'' ''none'' None]"
  proof -
    have "(0 :: int) mod 2 = 0 mod 2" by simp
    from t[where x = 0 and y = 0 and d = "dict_ones 12" and msb = 1 and side = "10 / 3",
        THEN conjunct2, THEN conjunct2, THEN conjunct2, THEN conjunct2, THEN conjunct2,
        THEN conjunct2, THEN conjunct1, THEN mp, OF this]
    show ?thesis by (simp add: board_5x5_def init_def)
  qed
  have 6: "board_cell board_5x5 (dict_ones 12) 1 (10 / 3) 0 1 =
     [Rect (80, 207 / 2) (10, 10) ''black'' ''none'' None,
      Rect (250 / 3, 641 / 6) (10 / 3, 10 / 3) ''white'' ''white'' (Some (1 / 5))]"
  proof -
    have "(1 :: int) mod 2 \<noteq> 0 mod 2 \<and>
        wf_marker (dict_ones 12) 1 (marker_index (cols board_5x5) 0 1) \<and> (0 :: int) \<le> 1"
      using w by simp
    from t[where x = 1 and y = 0 and d = "dict_ones 12" and msb = 1 and side = "10 / 3",
        THEN conjunct2, THEN conjunct2, THEN conjunct2, THEN conjunct2, THEN conjunct2,
        THEN conjunct2, THEN conjunct2, THEN conjunct1, THEN mp, OF this]
    obtain bl img where m: "marker (dict_ones 12) (marker_index (cols board_5x5) 0 1) = Some bl"
      and bits: "create_marker_bits 1 bl = Inr img"
      and cell: "board_cell board_5x5 (dict_ones 12) 1 (10 / 3) 0 1 =
            Rect (real_of_int 1 * square_size board_5x5 +
                    (width board_5x5 - real_of_int (cols board_5x5) * square_size board_5x5) / 2 +
                    (square_size board_5x5 - aruco_marker_size board_5x5) / 2,
                  real_of_int 0 * square_size board_5x5 +
                    (height board_5x5 - real_of_int (rows board_5x5) * square_size board_5x5) / 2 +
                    (square_size board_5x5 - aruco_marker_size board_5x5) / 2)
                 (aruco_marker_size board_5x5, aruco_marker_size board_5x5) ''black'' ''none'' None #
            concat (map (\<lambda>x'. concat (map (\<lambda>y'.
                if img ! y' ! x' \<noteq> 0 then
                  [Rect (real_of_int 1 * square_size board_5x5 +
                           (width board_5x5 - real_of_int (cols board_5x5) * square_size board_5x5) / 2 +
                           (square_size board_5x5 - aruco_marker_size board_5x5) / 2 + real x' * (10 / 3),
                         real_of_int 0 * square_size board_5x5 +
                           (height board_5x5 - real_of_int (rows board_5x5) * square_size board_5x5) / 2 +
                           (square_size board_5x5 - aruco_marker_size board_5x5) / 2 + real y' * (10 / 3))
                        (10 / 3, 10 / 3) ''white'' ''white'' (Some (square_size board_5x5 * 0.01))]
                else []) [0..<length img])) [0..<length (img ! 0)])"
      by blast
    from m have "bl = ''1''" unfolding i by (simp add: dict_ones_def)
    with bits have img: "img = [[0, 0, 0], [0, 1, 0], [0, 0, 0]]" by (simp add: bits_one)
    show ?thesis unfolding cell img
      by (simp add: board_5x5_def init_def upt_conv_Cons)
  qed
  from a b(1) c(1) r 1 d(1,2,3) 2 3 b(2) c(2) b(3) 4 5 w 6 show ?thesis by (intro conjI)
qed

text \<open>
  On the 5 x 5 board a dictionary of 12 markers, one fewer than the 13 of the ceiling
  rule, is not rejected.
\<close>

theorem charuco_odd_board_counterexample:
  "cols board_5x5 * rows board_5x5 = 25 \<and>
   nmarkers (dict_ones 12) = Some 12 \<and>
   (12 :: int) < \<lceil>real_of_int (cols board_5x5 * rows board_5x5) / 2\<rceil> \<and>
   (case make_charuco_board (Inr (dict_ones 12)) board_5x5 of
      Inl e \<Rightarrow> False
    | Inr self' \<Rightarrow> InsufficientMarkers \<notin> set (stdout self') \<and> length (g self') = 37)"
proof -
  from charuco_5x5_run obtain grp where
    "make_charuco_board (Inr (dict_ones 12)) board_5x5 = Inr (board_5x5\<lparr> g := grp, stdout := [] \<rparr>)"
    "length grp = 37"
    by blast
  moreover have "(12 :: int) < \<lceil>(25 :: real) / 2\<rceil>" by (simp add: less_ceiling_iff)
  ultimately show ?thesis by (simp add: board_5x5_def init_def dict_ones_def)
qed

end
